theory Spec2Isabelle
  imports Complex_Main "HOL-Library.Sublist"
begin

section \<open>Python values used by \<open>pycam/io_py.py\<close>\<close>

subsection \<open>\<open>datetime.datetime\<close> and \<open>datetime.timedelta\<close>\<close>

text \<open>
  \<open>write_witty_schedule_file\<close> receives naive \<open>datetime.datetime\<close> objects. Such an
  object carries a calendar date and a time of day. Subtracting two of them gives a
  \<open>timedelta\<close>, an exact signed number of microseconds; comparing them compares the
  points in time.
\<close>

record datetime =
  year :: int
  month :: int
  day :: int
  hour :: int
  minute :: int
  second :: int
  microsecond :: int

type_synonym timedelta = int
  \<comment> \<open>microseconds, as \<open>timedelta\<close> normalises to days, seconds and microseconds\<close>

definition is_leap :: "int \<Rightarrow> bool" where
  "is_leap y = (y mod 4 = 0 \<and> (y mod 100 \<noteq> 0 \<or> y mod 400 = 0))"

definition days_in_month :: "int \<Rightarrow> int \<Rightarrow> int" where
  "days_in_month y m =
     (if m = 2 then (if is_leap y then 29 else 28)
      else if m = 4 \<or> m = 6 \<or> m = 9 \<or> m = 11 then 30 else 31)"

definition days_before_year :: "int \<Rightarrow> int" where
  "days_before_year y = (y - 1) * 365 + (y - 1) div 4 - (y - 1) div 100 + (y - 1) div 400"

definition days_before_month :: "int \<Rightarrow> int \<Rightarrow> int" where
  "days_before_month y m =
     [0, 31, 59, 90, 120, 151, 181, 212, 243, 273, 304, 334] ! nat (m - 1)
       + (if 2 < m \<and> is_leap y then 1 else 0)"

definition toordinal :: "datetime \<Rightarrow> int" where
  "toordinal d = days_before_year (year d) + days_before_month (year d) (month d) + day d"

definition valid_datetime :: "datetime \<Rightarrow> bool" where
  "valid_datetime d =
     (1 \<le> year d \<and> year d \<le> 9999 \<and> 1 \<le> month d \<and> month d \<le> 12 \<and>
      1 \<le> day d \<and> day d \<le> days_in_month (year d) (month d) \<and>
      0 \<le> hour d \<and> hour d < 24 \<and> 0 \<le> minute d \<and> minute d < 60 \<and>
      0 \<le> second d \<and> second d < 60 \<and> 0 \<le> microsecond d \<and> microsecond d < 1000000)"

definition time_of_day :: "datetime \<Rightarrow> timedelta" where
  \<comment> \<open>microseconds since midnight\<close>
  "time_of_day d = ((hour d * 60 + minute d) * 60 + second d) * 1000000 + microsecond d"

definition hours24 :: timedelta where
  \<comment> \<open>\<open>datetime.timedelta(hours=24)\<close>\<close>
  "hours24 = 24 * 60 * 60 * 1000000"

definition dt_micros :: "datetime \<Rightarrow> int" where
  "dt_micros d = toordinal d * hours24 + time_of_day d"

definition dt_sub :: "datetime \<Rightarrow> datetime \<Rightarrow> timedelta" where
  \<comment> \<open>\<open>a - b\<close>\<close>
  "dt_sub a b = dt_micros a - dt_micros b"

definition dt_less :: "datetime \<Rightarrow> datetime \<Rightarrow> bool" where
  \<comment> \<open>\<open>a < b\<close>\<close>
  "dt_less a b = (dt_micros a < dt_micros b)"

definition same_date :: "datetime \<Rightarrow> datetime \<Rightarrow> bool" where
  "same_date a b = (year a = year b \<and> month a = month b \<and> day a = day b)"

subsection \<open>Floats, \<open>divmod\<close> and \<open>'{:.0f}'.format\<close>\<close>

text \<open>
  \<open>timedelta.total_seconds()\<close> and the values derived from it are Python floats. They are
  modelled by exact rationals. On a whole number of seconds \<open>total_seconds\<close> and
  \<open>divmod\<close> are exact in floating point as well; the quotient \<open>rem / 60\<close> is rounded to
  the nearest double, which does not move it across a rounding boundary of
  \<open>'{:.0f}'\<close>.
\<close>

definition total_seconds :: "timedelta \<Rightarrow> rat" where
  "total_seconds td = of_int td / 1000000"

definition py_divmod :: "rat \<Rightarrow> rat \<Rightarrow> rat \<times> rat" where
  \<comment> \<open>\<open>divmod(x, y)\<close> for \<open>y > 0\<close>: floored quotient and non-negative remainder\<close>
  "py_divmod x y = (of_int \<lfloor>x / y\<rfloor>, x - y * of_int \<lfloor>x / y\<rfloor>)"

definition hours_mins :: "timedelta \<Rightarrow> rat \<times> rat" where
  \<comment> \<open>\<open>num_hours, rem = divmod(td.total_seconds(), 60*60); num_mins = rem / 60\<close>\<close>
  "hours_mins td =
     (let (num_hours, rem) = py_divmod (total_seconds td) (60 * 60);
          num_mins = rem / 60
      in (num_hours, num_mins))"

definition hm_seconds :: "rat \<times> rat \<Rightarrow> rat" where
  \<comment> \<open>the length in seconds that a pair (hours, minutes) stands for\<close>
  "hm_seconds hm = fst hm * 3600 + snd hm * 60"

definition round_half_even :: "rat \<Rightarrow> int" where
  "round_half_even x =
     (let f = \<lfloor>x\<rfloor>; d = x - of_int f
      in if d < 1 / 2 then f else if 1 / 2 < d then f + 1
         else if even f then f else f + 1)"

definition digit_char :: "nat \<Rightarrow> char" where
  "digit_char n = char_of (48 + n)"

fun dec_digits :: "nat \<Rightarrow> string" where
  "dec_digits n =
     (if n < 10 then [digit_char n] else dec_digits (n div 10) @ [digit_char (n mod 10)])"

declare dec_digits.simps [simp del]

definition str_int :: "int \<Rightarrow> string" where
  \<comment> \<open>\<open>str(n)\<close>\<close>
  "str_int n = (if n < 0 then CHR ''-'' # dec_digits (nat (- n)) else dec_digits (nat n))"

definition format_0f :: "rat \<Rightarrow> string" where
  \<comment> \<open>\<open>'{:.0f}'.format(x)\<close>; a value that rounds to zero from below prints as \<open>-0\<close>\<close>
  "format_0f x =
     (let r = round_half_even x
      in if r = 0 \<and> x < 0 then ''-0'' else str_int r)"

definition zero_pad :: "nat \<Rightarrow> int \<Rightarrow> string" where
  \<comment> \<open>a non-negative number, padded with zeros on the left to at least \<open>w\<close> digits\<close>
  "zero_pad w n = (let s = dec_digits (nat n) in replicate (w - length s) CHR ''0'' @ s)"

definition strftime_HM :: "datetime \<Rightarrow> string" where
  \<comment> \<open>\<open>d.strftime('%H:%M')\<close>\<close>
  "strftime_HM d = zero_pad 2 (hour d) @ '':'' @ zero_pad 2 (minute d)"

definition strftime_HMS :: "datetime \<Rightarrow> string" where
  \<comment> \<open>\<open>d.strftime('%H:%M:%S')\<close>\<close>
  "strftime_HMS d =
     zero_pad 2 (hour d) @ '':'' @ zero_pad 2 (minute d) @ '':'' @ zero_pad 2 (second d)"

definition strftime_Ymd :: "datetime \<Rightarrow> string" where
  \<comment> \<open>\<open>d.strftime('%Y-%m-%d')\<close>, the year with century as four digits\<close>
  "strftime_Ymd d =
     zero_pad 4 (year d) @ ''-'' @ zero_pad 2 (month d) @ ''-'' @ zero_pad 2 (day d)"

section \<open>The file system\<close>

text \<open>
  A file system maps a path to the text of the file. Both functions open the file with
  \<open>newline='\n'\<close>, so no newline translation happens in either direction.
\<close>

type_synonym filesystem = "string \<rightharpoonup> string"

datatype py_error = FileNotFoundError | ValueError | IndexError | AttributeError

definition nl :: string where
  "nl = [CHR 0x0A]"

section \<open>\<open>write_witty_schedule_file\<close>\<close>

definition single_window :: "datetime \<Rightarrow> datetime \<Rightarrow> (rat \<times> rat) \<times> (rat \<times> rat)" where
  \<comment> \<open>the branch \<open>time_off_2 is None or time_on_2 is None\<close>:
      \<open>((num_hours_on, num_mins_on), (num_hours_off, num_mins_off))\<close>\<close>
  "single_window time_on time_off =
     (if 0 < dt_sub time_off time_on then
        let time_delt_on = dt_sub time_off time_on;
            time_delt_off = hours24 - time_delt_on
        in (hours_mins time_delt_on, hours_mins time_delt_off)
      else if dt_sub time_off time_on < 0 then
        let time_delt_off = dt_sub time_on time_off;
            time_delt_on = hours24 - time_delt_off
        in (hours_mins time_delt_on, hours_mins time_delt_off)
      else ((24, 0), (0, 0)))"

definition dual_order ::
  "datetime \<Rightarrow> datetime \<Rightarrow> datetime \<Rightarrow> datetime \<Rightarrow> datetime \<times> datetime \<times> datetime \<times> datetime"
where
  \<comment> \<open>\<open>(time_start_1, time_stop_1, time_start_2, time_stop_2)\<close>\<close>
  "dual_order time_on time_off time_on_2 time_off_2 =
     (if dt_less time_on time_on_2 then
        (if dt_less time_on time_off then (time_on, time_off, time_on_2, time_off_2)
         else (time_on, time_off_2, time_on_2, time_off))
      else
        (if dt_less time_on_2 time_off_2 then (time_on_2, time_off_2, time_on, time_off)
         else (time_on_2, time_off, time_on, time_off_2)))"

definition dual_deltas ::
  "datetime \<Rightarrow> datetime \<Rightarrow> datetime \<Rightarrow> datetime \<Rightarrow> timedelta \<times> timedelta \<times> timedelta \<times> timedelta"
where
  \<comment> \<open>the lengths of the segments in the order they are written: ON, OFF, ON, OFF\<close>
  "dual_deltas time_on time_off time_on_2 time_off_2 =
     (let (time_start_1, time_stop_1, time_start_2, time_stop_2) =
            dual_order time_on time_off time_on_2 time_off_2;
          time_delt_1 = dt_sub time_stop_1 time_start_1;
          time_delt_2 = dt_sub time_start_2 time_stop_1
      in if dt_less time_start_2 time_stop_2 then
           let time_delt_3 = dt_sub time_stop_2 time_start_2;
               time_delt_4 = hours24 - (time_delt_1 + time_delt_2 + time_delt_3)
           in (time_delt_1, time_delt_2, time_delt_3, time_delt_4)
         else
           let time_delt_3 = dt_sub time_start_1 time_stop_2;
               time_delt_4 = hours24 - (time_delt_1 + time_delt_2 + time_delt_3)
           in (time_delt_1, time_delt_2, time_delt_4, time_delt_3))"

definition dual_window ::
  "datetime \<Rightarrow> datetime \<Rightarrow> datetime \<Rightarrow> datetime \<Rightarrow>
     (rat \<times> rat) \<times> (rat \<times> rat) \<times> (rat \<times> rat) \<times> (rat \<times> rat)"
where
  \<comment> \<open>\<open>(num_hours_on_1, num_mins_on_1)\<close>, \<open>(num_hours_off_1, num_mins_off_1)\<close>,
      \<open>(num_hours_on_2, num_mins_on_2)\<close>, \<open>(num_hours_off_2, num_mins_off_2)\<close>\<close>
  "dual_window time_on time_off time_on_2 time_off_2 =
     (let (d_on_1, d_off_1, d_on_2, d_off_2) = dual_deltas time_on time_off time_on_2 time_off_2
      in (hours_mins d_on_1, hours_mins d_off_1, hours_mins d_on_2, hours_mins d_off_2))"

definition segment_line :: "string \<Rightarrow> rat \<times> rat \<Rightarrow> string" where
  \<comment> \<open>\<open>'ON H{:.0f} M{:.0f}\n'.format(num_hours, num_mins)\<close>, and the same with \<open>OFF\<close>\<close>
  "segment_line kind hm = kind @ '' H'' @ format_0f (fst hm) @ '' M'' @ format_0f (snd hm) @ nl"

definition witty_schedule_lines ::
  "datetime \<Rightarrow> datetime \<Rightarrow> datetime \<Rightarrow> datetime option \<Rightarrow> datetime option \<Rightarrow> string list"
where
  \<comment> \<open>the strings passed to \<open>f.write\<close>, in order; \<open>date_now\<close> is \<open>datetime.datetime.now()\<close>\<close>
  "witty_schedule_lines date_now time_on time_off time_on_2 time_off_2 =
     (let time_on_str = strftime_HMS time_on;
          date_now_str = strftime_Ymd date_now
      in case (time_off_2, time_on_2) of
           (Some t_off_2, Some t_on_2) \<Rightarrow>
             (let (time_start_1, time_stop_1, time_start_2, time_stop_2) =
                    dual_order time_on time_off t_on_2 t_off_2;
                  (on_1, off_1, on_2, off_2) = dual_window time_on time_off t_on_2 t_off_2
              in [''# Raspberry Pi start-up/shut-down schedule script'' @ nl,
                  ''# on_time='' @ strftime_HM time_on @ nl,
                  ''# off_time='' @ strftime_HM time_off @ nl,
                  ''# on_time_2='' @ strftime_HM t_on_2 @ nl,
                  ''# off_time_2='' @ strftime_HM t_off_2 @ nl,
                  ''BEGIN '' @ date_now_str @ '' '' @ strftime_HMS time_start_1 @ nl,
                  ''END 2038-01-01 12:00:00'' @ nl,
                  segment_line ''ON'' on_1,
                  segment_line ''OFF'' off_1,
                  segment_line ''ON'' on_2,
                  segment_line ''OFF'' off_2])
         | _ \<Rightarrow>
             (let (on_hm, off_hm) = single_window time_on time_off
              in [''# Raspberry Pi start-up/shut-down schedule script'' @ nl,
                  ''# on_time='' @ strftime_HM time_on @ nl,
                  ''# off_time='' @ strftime_HM time_off @ nl,
                  ''BEGIN '' @ date_now_str @ '' '' @ time_on_str @ nl,
                  ''END 2038-01-01 12:00:00'' @ nl,
                  segment_line ''ON'' on_hm,
                  segment_line ''OFF'' off_hm]))"

definition write_witty_schedule_file ::
  "filesystem \<Rightarrow> datetime \<Rightarrow> string \<Rightarrow> datetime \<Rightarrow> datetime \<Rightarrow> datetime option \<Rightarrow>
     datetime option \<Rightarrow> py_error + filesystem"
where
  \<comment> \<open>\<open>open(filename, 'w')\<close> creates or truncates; the function has no \<open>raise\<close>\<close>
  "write_witty_schedule_file fs date_now filename time_on time_off time_on_2 time_off_2 =
     Inr (fs(filename \<mapsto>
            concat (witty_schedule_lines date_now time_on time_off time_on_2 time_off_2)))"

section \<open>\<open>read_witty_schedule_file\<close>\<close>

subsection \<open>String operations\<close>

text \<open>
  On ASCII text \<open>int\<close> strips the white space of the C locale (the characters 9 to 13
  and the blank), takes an optional sign and reads decimal digits, where single
  underscores may stand between digits; more than 4300 digits are refused, as
  \<open>sys.int_max_str_digits\<close> has it since Python 3.11. On other text \<open>int\<close> knows further
  digits and white space, so the statements about the reader are made for ASCII text.
\<close>

fun file_lines :: "string \<Rightarrow> string list" where
  \<comment> \<open>\<open>for line in f\<close>: every line keeps its terminating newline\<close>
  "file_lines [] = []"
| "file_lines (x # xs) =
     (if x = CHR 0x0A then [x] # file_lines xs
      else (case file_lines xs of [] \<Rightarrow> [[x]] | l # ls \<Rightarrow> (x # l) # ls))"

fun str_contains :: "string \<Rightarrow> string \<Rightarrow> bool" where
  \<comment> \<open>\<open>key in line\<close>\<close>
  "str_contains key [] = (key = [])"
| "str_contains key (x # xs) = (prefix key (x # xs) \<or> str_contains key xs)"

fun split_char :: "char \<Rightarrow> string \<Rightarrow> string list" where
  \<comment> \<open>\<open>s.split(c)\<close> for a separator of one character\<close>
  "split_char c [] = [[]]"
| "split_char c (x # xs) =
     (if x = c then [] # split_char c xs
      else (case split_char c xs of [] \<Rightarrow> [[x]] | p # ps \<Rightarrow> (x # p) # ps))"

definition py_isspace :: "char \<Rightarrow> bool" where
  \<comment> \<open>\<open>Py_ISSPACE\<close>\<close>
  "py_isspace c = (let n = (of_char c :: nat) in (9 \<le> n \<and> n \<le> 13) \<or> n = 32)"

definition strip :: "string \<Rightarrow> string" where
  "strip s = rev (dropWhile py_isspace (rev (dropWhile py_isspace s)))"

definition digit_val :: "char \<Rightarrow> nat option" where
  "digit_val c =
     (let n = (of_char c :: nat) in if 48 \<le> n \<and> n \<le> 57 then Some (n - 48) else None)"

fun parse_digits :: "nat \<Rightarrow> string \<Rightarrow> nat option" where
  \<comment> \<open>the digits after the first one, \<open>acc\<close> being the value read so far\<close>
  "parse_digits acc [] = Some acc"
| "parse_digits acc [c] =
     (case digit_val c of None \<Rightarrow> None | Some v \<Rightarrow> Some (acc * 10 + v))"
| "parse_digits acc (c # d # ds) =
     (if c = CHR ''_'' then
        (case digit_val d of None \<Rightarrow> None | Some v \<Rightarrow> parse_digits (acc * 10 + v) ds)
      else
        (case digit_val c of None \<Rightarrow> None | Some v \<Rightarrow> parse_digits (acc * 10 + v) (d # ds)))"

definition max_str_digits :: nat where
  \<comment> \<open>the default of \<open>sys.int_max_str_digits\<close>\<close>
  "max_str_digits = 4300"

definition py_int :: "string \<Rightarrow> int option" where
  \<comment> \<open>\<open>int(s)\<close>; \<open>None\<close> stands for \<open>ValueError\<close>. The digits are counted without the
      underscores and with leading zeros.\<close>
  "py_int s =
     (let t = strip s;
          (neg, u) = (case t of
                        [] \<Rightarrow> (False, t)
                      | c # r \<Rightarrow> if c = CHR ''-'' then (True, r)
                                else if c = CHR ''+'' then (False, r) else (False, t))
      in case u of
           [] \<Rightarrow> None
         | c # cs \<Rightarrow>
             (case digit_val c of
                None \<Rightarrow> None
              | Some v \<Rightarrow>
                  (case parse_digits v cs of
                     None \<Rightarrow> None
                   | Some n \<Rightarrow>
                       if max_str_digits < length (filter (\<lambda>x. x \<noteq> CHR ''_'') u) then None
                       else Some (if neg then - int n else int n))))"

subsection \<open>The reader\<close>

type_synonym hm_pair = "int option \<times> int option"

type_synonym witty_times = "hm_pair \<times> hm_pair \<times> hm_pair \<times> hm_pair"

definition field_value :: "string \<Rightarrow> py_error + string" where
  \<comment> \<open>\<open>line.split('=')[1].split('\n')[0]\<close>\<close>
  "field_value line =
     (case split_char CHR ''='' line of
        _ # v # _ \<Rightarrow>
          (case split_char CHR 0x0A v of t # _ \<Rightarrow> Inr t | [] \<Rightarrow> Inl IndexError)
      | _ \<Rightarrow> Inl IndexError)"

definition hour_min :: "string \<Rightarrow> py_error + int \<times> int" where
  \<comment> \<open>\<open>h, m = [int(x) for x in t.split(':')]\<close>\<close>
  "hour_min t =
     (case those (map py_int (split_char CHR '':'' t)) of
        Some [h, m] \<Rightarrow> Inr (h, m)
      | _ \<Rightarrow> Inl ValueError)"

definition parse_line :: "string \<Rightarrow> py_error + int \<times> int" where
  "parse_line line = (case field_value line of Inl e \<Rightarrow> Inl e | Inr t \<Rightarrow> hour_min t)"

fun read_lines :: "string list \<Rightarrow> witty_times \<Rightarrow> py_error + witty_times" where
  \<comment> \<open>the loop over the lines, with the eight local variables as four pairs\<close>
  "read_lines [] st = Inr st"
| "read_lines (line # rest) (on_t, off_t, on_2, off_2) =
     (if str_contains ''on_time='' line then
        (case parse_line line of
           Inl e \<Rightarrow> Inl e
         | Inr (h, m) \<Rightarrow> read_lines rest ((Some h, Some m), off_t, on_2, off_2))
      else if str_contains ''off_time='' line then
        (case parse_line line of
           Inl e \<Rightarrow> Inl e
         | Inr (h, m) \<Rightarrow> read_lines rest (on_t, (Some h, Some m), on_2, off_2))
      else if str_contains ''on_time_2='' line then
        (case parse_line line of
           Inl e \<Rightarrow> Inl e
         | Inr (h, m) \<Rightarrow> read_lines rest (on_t, off_t, (Some h, Some m), off_2))
      else if str_contains ''off_time_2='' line then
        (case parse_line line of
           Inl e \<Rightarrow> Inl e
         | Inr (h, m) \<Rightarrow> read_lines rest (on_t, off_t, on_2, (Some h, Some m)))
      else read_lines rest (on_t, off_t, on_2, off_2))"

definition try_return :: "py_error + 'a \<Rightarrow> py_error + 'a option" where
  \<comment> \<open>\<open>try: return v\<close> with \<open>except AttributeError: print(...)\<close>; the handler falls off
      the end of the function, which returns \<open>None\<close>\<close>
  "try_return body =
     (case body of
        Inr v \<Rightarrow> Inr (Some v)
      | Inl e \<Rightarrow> if e = AttributeError then Inr None else Inl e)"

definition read_witty_schedule_file :: "filesystem \<Rightarrow> string \<Rightarrow> py_error + witty_times option" where
  "read_witty_schedule_file fs filename =
     (case fs filename of
        None \<Rightarrow> Inl FileNotFoundError
      | Some text \<Rightarrow>
          (case read_lines (file_lines text) ((None, None), (None, None), (None, None), (None, None)) of
             Inl e \<Rightarrow> Inl e
           | Inr (on_t, off_t, on_2, off_2) \<Rightarrow> try_return (Inr (on_t, off_t, on_2, off_2))))"

section \<open>Notions used in the statements\<close>

definition segment_lines :: "string list \<Rightarrow> string list" where
  \<comment> \<open>the \<open>ON\<close> and \<open>OFF\<close> lines of a schedule, in order\<close>
  "segment_lines ls = filter (\<lambda>l. prefix ''ON'' l \<or> prefix ''OFF'' l) ls"

definition in_window :: "datetime \<Rightarrow> datetime \<Rightarrow> timedelta \<Rightarrow> bool" where
  \<comment> \<open>the daily window that opens at \<open>w_on\<close> and closes at \<open>w_off\<close> holds the time of day
      \<open>t\<close>; a window whose closing time is the earlier one runs over midnight\<close>
  "in_window w_on w_off t =
     (if time_of_day w_on < time_of_day w_off then time_of_day w_on \<le> t \<and> t < time_of_day w_off
      else if time_of_day w_off < time_of_day w_on then
        (time_of_day w_on \<le> t \<and> t < hours24) \<or> (0 \<le> t \<and> t < time_of_day w_off)
      else False)"

definition windows_overlap :: "datetime \<Rightarrow> datetime \<Rightarrow> datetime \<Rightarrow> datetime \<Rightarrow> bool" where
  "windows_overlap time_on time_off time_on_2 time_off_2 =
     (\<exists>t. in_window time_on time_off t \<and> in_window time_on_2 time_off_2 t)"

definition window_length :: "datetime \<Rightarrow> datetime \<Rightarrow> timedelta" where
  \<comment> \<open>from the opening to the next closing time, around the clock\<close>
  "window_length w_on w_off = (time_of_day w_off - time_of_day w_on) mod hours24"

definition at_time :: "int \<Rightarrow> int \<Rightarrow> datetime" where
  \<comment> \<open>the example times, all on one day\<close>
  "at_time h m =
     \<lparr>year = 2021, month = 3, day = 14, hour = h, minute = m, second = 0, microsecond = 0\<rparr>"

definition printed_minutes :: "rat \<times> rat \<Rightarrow> int" where
  \<comment> \<open>the minutes that a line \<open>ON Hh Mm\<close> or \<open>OFF Hh Mm\<close> stands for\<close>
  "printed_minutes hm = round_half_even (fst hm) * 60 + round_half_even (snd hm)"

definition whole_minute :: "datetime \<Rightarrow> bool" where
  "whole_minute d = (second d = 0 \<and> microsecond d = 0)"

definition plain :: "string \<Rightarrow> bool" where
  \<comment> \<open>neither an equals sign nor a newline\<close>
  "plain s = (CHR ''='' \<notin> set s \<and> CHR 0x0A \<notin> set s)"

definition is_line :: "string \<Rightarrow> bool" where
  \<comment> \<open>a text that ends with its only newline\<close>
  "is_line l = (l \<noteq> [] \<and> last l = CHR 0x0A \<and> CHR 0x0A \<notin> set (butlast l))"

definition is_ascii :: "string \<Rightarrow> bool" where
  "is_ascii s = list_all (\<lambda>c. (of_char c :: nat) < 128) s"

definition has_key :: "string \<Rightarrow> bool" where
  \<comment> \<open>the line takes one of the four branches of the reader's loop\<close>
  "has_key line =
     (str_contains ''on_time='' line \<or> str_contains ''off_time='' line \<or>
      str_contains ''on_time_2='' line \<or> str_contains ''off_time_2='' line)"

section \<open>Durations and lines\<close>

lemma hm_seconds_hours_mins: "hm_seconds (hours_mins td) = total_seconds td"
  by (simp add: hm_seconds_def hours_mins_def py_divmod_def Let_def field_simps)

lemma total_seconds_add: "total_seconds (a + b) = total_seconds a + total_seconds b"
  by (simp add: total_seconds_def add_divide_distrib)

lemma total_seconds_hours24: "total_seconds hours24 = 86400"
  by (simp add: total_seconds_def hours24_def)

lemma dt_sub_same_date: "same_date a b \<Longrightarrow> dt_sub a b = time_of_day a - time_of_day b"
  by (simp add: same_date_def dt_sub_def dt_micros_def toordinal_def)

lemma dt_less_same_date: "same_date a b \<Longrightarrow> dt_less a b = (time_of_day a < time_of_day b)"
  by (simp add: same_date_def dt_less_def dt_micros_def toordinal_def)

lemma time_of_day_range:
  assumes "valid_datetime d"
  shows "0 \<le> time_of_day d" and "time_of_day d < hours24"
  using assms unfolding valid_datetime_def time_of_day_def hours24_def by auto

lemma single_lines:
  assumes "time_off_2 = None \<or> time_on_2 = None"
  shows "witty_schedule_lines date_now time_on time_off time_on_2 time_off_2 =
    [''# Raspberry Pi start-up/shut-down schedule script'' @ nl,
     ''# on_time='' @ strftime_HM time_on @ nl,
     ''# off_time='' @ strftime_HM time_off @ nl,
     ''BEGIN '' @ strftime_Ymd date_now @ '' '' @ strftime_HMS time_on @ nl,
     ''END 2038-01-01 12:00:00'' @ nl,
     segment_line ''ON'' (fst (single_window time_on time_off)),
     segment_line ''OFF'' (snd (single_window time_on time_off))]"
  using assms by (auto simp: witty_schedule_lines_def Let_def split: option.splits prod.splits)

lemma dual_lines:
  "witty_schedule_lines date_now time_on time_off (Some t_on_2) (Some t_off_2) =
    [''# Raspberry Pi start-up/shut-down schedule script'' @ nl,
     ''# on_time='' @ strftime_HM time_on @ nl,
     ''# off_time='' @ strftime_HM time_off @ nl,
     ''# on_time_2='' @ strftime_HM t_on_2 @ nl,
     ''# off_time_2='' @ strftime_HM t_off_2 @ nl,
     ''BEGIN '' @ strftime_Ymd date_now @ '' '' @
        strftime_HMS (fst (dual_order time_on time_off t_on_2 t_off_2)) @ nl,
     ''END 2038-01-01 12:00:00'' @ nl,
     segment_line ''ON'' (fst (dual_window time_on time_off t_on_2 t_off_2)),
     segment_line ''OFF'' (fst (snd (dual_window time_on time_off t_on_2 t_off_2))),
     segment_line ''ON'' (fst (snd (snd (dual_window time_on time_off t_on_2 t_off_2)))),
     segment_line ''OFF'' (snd (snd (snd (dual_window time_on time_off t_on_2 t_off_2))))]"
  by (simp add: witty_schedule_lines_def Let_def split: prod.splits)

lemma segment_lines_single:
  assumes "time_off_2 = None \<or> time_on_2 = None"
  shows "segment_lines (witty_schedule_lines date_now time_on time_off time_on_2 time_off_2) =
    [segment_line ''ON'' (fst (single_window time_on time_off)),
     segment_line ''OFF'' (snd (single_window time_on time_off))]"
  by (simp add: single_lines [OF assms] segment_lines_def segment_line_def)

lemma segment_lines_dual:
  "segment_lines (witty_schedule_lines date_now time_on time_off (Some t_on_2) (Some t_off_2)) =
    [segment_line ''ON'' (fst (dual_window time_on time_off t_on_2 t_off_2)),
     segment_line ''OFF'' (fst (snd (dual_window time_on time_off t_on_2 t_off_2))),
     segment_line ''ON'' (fst (snd (snd (dual_window time_on time_off t_on_2 t_off_2)))),
     segment_line ''OFF'' (snd (snd (snd (dual_window time_on time_off t_on_2 t_off_2))))]"
  by (simp add: dual_lines segment_lines_def segment_line_def)

section \<open>Rounding to minutes\<close>

lemma hours_mins_div_mod:
  "hours_mins td = (of_int (td div 3600000000), of_int (td mod 3600000000) / 60000000)"
proof -
  have "total_seconds td / (60 * 60) = of_int td / of_int 3600000000"
    by (simp add: total_seconds_def)
  then have f: "\<lfloor>total_seconds td / (60 * 60)\<rfloor> = td div 3600000000"
    by (simp only: floor_divide_of_int_eq)
  have "td = 3600000000 * (td div 3600000000) + td mod 3600000000" by simp
  then have "(of_int td :: rat) = 3600000000 * of_int (td div 3600000000) + of_int (td mod 3600000000)"
    by (metis of_int_add of_int_mult of_int_numeral)
  then have "(total_seconds td - 60 * 60 * of_int (td div 3600000000)) / 60 =
      of_int (td mod 3600000000) / 60000000"
    by (simp add: total_seconds_def field_simps)
  with f show ?thesis
    by (simp add: hours_mins_def py_divmod_def Let_def)
qed

lemma round_half_even_of_int [simp]: "round_half_even (of_int k) = k"
  by (simp add: round_half_even_def)

lemma round_half_even_neg: "round_half_even (- x) = - round_half_even x"
proof (cases "x = of_int \<lfloor>x\<rfloor>")
  case True
  then obtain k where "x = of_int k" ..
  then have "round_half_even (- x) = round_half_even (of_int (- k))" by simp
  also have "\<dots> = - k" by (rule round_half_even_of_int)
  finally show ?thesis using \<open>x = of_int k\<close> by simp
next
  case False
  let ?f = "\<lfloor>x\<rfloor>"
  have lo: "of_int ?f < x" using False by (metis of_int_floor_le order_less_le)
  have hi: "x < of_int ?f + 1" by linarith
  have fn: "\<lfloor>- x\<rfloor> = - ?f - 1"
    using lo hi by (intro floor_unique) simp_all
  have d: "- x - of_int (- ?f - 1) = 1 - (x - of_int ?f)" by simp
  show ?thesis
    unfolding round_half_even_def Let_def fn d
    using lo hi by (auto simp: field_simps)
qed

lemma round_half_even_add_even:
  assumes "even n"
  shows "round_half_even (of_int n + x) = n + round_half_even x"
proof -
  have f: "\<lfloor>of_int n + x\<rfloor> = n + \<lfloor>x\<rfloor>" by simp
  show ?thesis
    unfolding round_half_even_def Let_def f using assms by simp
qed

lemma round_half_even_zero [simp]: "round_half_even 0 = 0"
  using round_half_even_of_int [of 0] by simp

lemma printed_minutes_div_mod:
  "printed_minutes (hours_mins td) =
     (td div 3600000000) * 60 + round_half_even (of_int (td mod 3600000000) / 60000000)"
  by (simp only: printed_minutes_def hours_mins_div_mod fst_conv snd_conv
      round_half_even_of_int)

lemma printed_minutes_exact:
  assumes "60000000 dvd td"
  shows "printed_minutes (hours_mins td) * 60000000 = td"
proof -
  have "(60000000 :: int) dvd 3600000000" by simp
  with assms have "60000000 dvd td mod 3600000000" by (simp add: dvd_mod)
  then obtain k where k: "td mod 3600000000 = 60000000 * k" ..
  then have "(of_int (td mod 3600000000) :: rat) / 60000000 = of_int k" by simp
  then have "printed_minutes (hours_mins td) = (td div 3600000000) * 60 + k"
    by (simp only: printed_minutes_div_mod round_half_even_of_int)
  moreover have "td = 3600000000 * (td div 3600000000) + td mod 3600000000" by simp
  ultimately show ?thesis using k by simp
qed

lemma printed_minutes_pair:
  assumes "x + y = hours24"
  shows "printed_minutes (hours_mins x) + printed_minutes (hours_mins y) = 24 * 60"
proof -
  let ?U = "3600000000 :: int"
  define q where "q = x div ?U"
  define r where "r = x mod ?U"
  have x: "x = ?U * q + r" and r: "0 \<le> r" "r < ?U"
    by (simp_all add: q_def r_def)
  have y: "y = 24 * ?U - x" using assms by (simp add: hours24_def)
  have px: "printed_minutes (hours_mins x) = q * 60 + round_half_even (of_int r / 60000000)"
    by (simp only: printed_minutes_div_mod q_def r_def)
  show ?thesis
  proof (cases "r = 0")
    case True
    have e: "y = ?U * (24 - q) + 0" using x y True by simp
    have "y div ?U = 24 - q" by (rule int_div_pos_eq [OF e]) simp_all
    moreover have "y mod ?U = 0" by (rule int_mod_pos_eq [OF e]) simp_all
    ultimately have "printed_minutes (hours_mins y) = (24 - q) * 60"
      by (simp add: printed_minutes_div_mod)
    with px True show ?thesis by simp
  next
    case False
    with r have rp: "0 < r" by simp
    have e: "y = ?U * (23 - q) + (?U - r)" using x y by simp
    have "y div ?U = 23 - q" by (rule int_div_pos_eq [OF e]) (use rp r in simp_all)
    moreover have "y mod ?U = ?U - r" by (rule int_mod_pos_eq [OF e]) (use rp r in simp_all)
    moreover have "(of_int (?U - r) :: rat) / 60000000 = of_int 60 + - (of_int r / 60000000)"
      by (simp add: field_simps)
    ultimately have "printed_minutes (hours_mins y) =
        (23 - q) * 60 + round_half_even (of_int 60 + - (of_int r / 60000000))"
      by (simp only: printed_minutes_div_mod)
    also have "round_half_even (of_int 60 + - (of_int r / 60000000)) =
        60 - round_half_even (of_int r / 60000000)"
    proof -
      have "even (60 :: int)" by simp
      note a = round_half_even_add_even [OF this]
      show ?thesis by (simp only: a round_half_even_neg)
    qed
    finally show ?thesis using px by simp
  qed
qed

lemma time_of_day_whole_minute:
  "whole_minute d \<Longrightarrow> time_of_day d = (hour d * 60 + minute d) * 60000000"
  by (simp add: whole_minute_def time_of_day_def)

lemma dt_sub_whole_minute:
  assumes "whole_minute a" and "whole_minute b"
  shows "60000000 dvd dt_sub a b"
proof -
  have "dt_sub a b =
      60000000 * ((toordinal a - toordinal b) * 1440
                  + (hour a * 60 + minute a) - (hour b * 60 + minute b))"
    using assms
    by (simp add: dt_sub_def dt_micros_def hours24_def time_of_day_whole_minute algebra_simps)
  then show ?thesis by simp
qed

lemma dual_deltas_whole_minute:
  assumes "whole_minute time_on" and "whole_minute time_off"
    and "whole_minute time_on_2" and "whole_minute time_off_2"
    and "dual_deltas time_on time_off time_on_2 time_off_2 = (d1, d2, d3, d4)"
  shows "60000000 dvd d1 \<and> 60000000 dvd d2 \<and> 60000000 dvd d3 \<and> 60000000 dvd d4"
proof -
  have h: "(60000000 :: int) dvd hours24" by (simp add: hours24_def)
  note s = dt_sub_whole_minute [OF assms(1) assms(2)] dt_sub_whole_minute [OF assms(2) assms(1)]
    dt_sub_whole_minute [OF assms(1) assms(3)] dt_sub_whole_minute [OF assms(3) assms(1)]
    dt_sub_whole_minute [OF assms(1) assms(4)] dt_sub_whole_minute [OF assms(4) assms(1)]
    dt_sub_whole_minute [OF assms(2) assms(3)] dt_sub_whole_minute [OF assms(3) assms(2)]
    dt_sub_whole_minute [OF assms(2) assms(4)] dt_sub_whole_minute [OF assms(4) assms(2)]
    dt_sub_whole_minute [OF assms(3) assms(4)] dt_sub_whole_minute [OF assms(4) assms(3)]
  from assms(5) show ?thesis
    by (auto simp: dual_deltas_def dual_order_def Let_def h s split: if_splits
        intro!: dvd_diff dvd_add)
qed

section \<open>One window\<close>

text \<open>
  C1. For two times of day on one date that differ, the schedule of the one-window form
  has exactly one \<open>ON\<close> and one \<open>OFF\<close> line; the two lengths they are computed from are
  both positive and add up to 24 hours, and so do the hours and minutes of the two
  lines, before and after they are rounded for printing.
\<close>

theorem single_window_partition:
  assumes "valid_datetime time_on" and "valid_datetime time_off"
    and "same_date time_on time_off"
    and "time_of_day time_on \<noteq> time_of_day time_off"
    and "time_off_2 = None \<or> time_on_2 = None"
  shows "\<exists>d_on d_off.
           single_window time_on time_off = (hours_mins d_on, hours_mins d_off)
         \<and> 0 < d_on \<and> 0 < d_off \<and> d_on + d_off = hours24
         \<and> hm_seconds (hours_mins d_on) + hm_seconds (hours_mins d_off) = 24 * 3600
         \<and> printed_minutes (hours_mins d_on) + printed_minutes (hours_mins d_off) = 24 * 60
         \<and> segment_lines (witty_schedule_lines date_now time_on time_off time_on_2 time_off_2) =
             [segment_line ''ON'' (hours_mins d_on), segment_line ''OFF'' (hours_mins d_off)]"
proof -
  let ?a = "time_of_day time_on" and ?b = "time_of_day time_off"
  have d: "dt_sub time_off time_on = ?b - ?a" "dt_sub time_on time_off = ?a - ?b"
    using assms(3) by (simp_all add: dt_sub_same_date same_date_def)
  note r = time_of_day_range [OF assms(1)] time_of_day_range [OF assms(2)]
  have sum: "hm_seconds (hours_mins x) + hm_seconds (hours_mins y) = 24 * 3600"
    if "x + y = hours24" for x y
    using that total_seconds_add [of x y]
    by (simp add: hm_seconds_hours_mins total_seconds_hours24)
  show ?thesis
  proof (cases "?a < ?b")
    case True
    then have sw: "single_window time_on time_off =
        (hours_mins (?b - ?a), hours_mins (hours24 - (?b - ?a)))"
      by (simp add: single_window_def d Let_def)
    have "0 < ?b - ?a" "0 < hours24 - (?b - ?a)" "(?b - ?a) + (hours24 - (?b - ?a)) = hours24"
      using True r by simp_all
    with sw sum [of "?b - ?a" "hours24 - (?b - ?a)"]
      printed_minutes_pair [of "?b - ?a" "hours24 - (?b - ?a)"] show ?thesis
      by (intro exI [of _ "?b - ?a"] exI [of _ "hours24 - (?b - ?a)"])
         (simp add: segment_lines_single [OF assms(5)])
  next
    case False
    with assms(4) have lt: "?b < ?a" by simp
    then have sw: "single_window time_on time_off =
        (hours_mins (hours24 - (?a - ?b)), hours_mins (?a - ?b))"
      by (simp add: single_window_def d Let_def)
    have "0 < ?a - ?b" "0 < hours24 - (?a - ?b)" "(hours24 - (?a - ?b)) + (?a - ?b) = hours24"
      using lt r by simp_all
    with sw sum [of "hours24 - (?a - ?b)" "?a - ?b"]
      printed_minutes_pair [of "hours24 - (?a - ?b)" "?a - ?b"] show ?thesis
      by (intro exI [of _ "hours24 - (?a - ?b)"] exI [of _ "?a - ?b"])
         (simp add: segment_lines_single [OF assms(5)])
  qed
qed

theorem single_window_partition_witness:
  "\<exists>d_on d_off.
      single_window (at_time 6 0) (at_time 18 30) = (hours_mins d_on, hours_mins d_off)
    \<and> 0 < d_on \<and> 0 < d_off \<and> d_on + d_off = hours24"
proof -
  have a: "valid_datetime (at_time 6 0)" by code_simp
  have b: "valid_datetime (at_time 18 30)" by code_simp
  have c: "same_date (at_time 6 0) (at_time 18 30)" by code_simp
  have d: "time_of_day (at_time 6 0) \<noteq> time_of_day (at_time 18 30)" by code_simp
  have e: "(None :: datetime option) = None \<or> (None :: datetime option) = None" by simp
  from single_window_partition [OF a b c d e, of "at_time 10 30"] show ?thesis by blast
qed

text \<open>
  C7. When the switch-on time is the earlier of the two on one date, the \<open>ON\<close> length is
  the difference of the two times and the \<open>OFF\<close> length is the rest of the 24 hours. For
  06:00 and 18:00 the file says \<open>ON H12 M0\<close> and \<open>OFF H12 M0\<close>.
\<close>

theorem single_window_same_day:
  assumes "same_date time_on time_off" and "time_of_day time_on < time_of_day time_off"
  shows "single_window time_on time_off =
           (hours_mins (time_of_day time_off - time_of_day time_on),
            hours_mins (hours24 - (time_of_day time_off - time_of_day time_on)))
         \<and> hm_seconds (fst (single_window time_on time_off)) =
             total_seconds (time_of_day time_off - time_of_day time_on)
         \<and> hm_seconds (snd (single_window time_on time_off)) =
             total_seconds (hours24 - (time_of_day time_off - time_of_day time_on))
         \<and> segment_lines
             (witty_schedule_lines (at_time 10 30) (at_time 6 0) (at_time 18 0) None None) =
             [''ON H12 M0'' @ nl, ''OFF H12 M0'' @ nl]"
proof -
  have d: "dt_sub time_off time_on = time_of_day time_off - time_of_day time_on"
    using assms(1) by (simp add: dt_sub_same_date same_date_def)
  have sw: "single_window time_on time_off =
           (hours_mins (time_of_day time_off - time_of_day time_on),
            hours_mins (hours24 - (time_of_day time_off - time_of_day time_on)))"
    using assms(2) by (simp add: single_window_def d Let_def)
  have ex: "segment_lines
      (witty_schedule_lines (at_time 10 30) (at_time 6 0) (at_time 18 0) None None) =
      [''ON H12 M0'' @ nl, ''OFF H12 M0'' @ nl]"
    by code_simp
  show ?thesis
    by (simp only: sw fst_conv snd_conv hm_seconds_hours_mins ex simp_thms)
qed

theorem single_window_same_day_witness:
  "single_window (at_time 6 15) (at_time 18 0) =
     (hours_mins 42300000000, hours_mins 44100000000)"
proof -
  have a: "same_date (at_time 6 15) (at_time 18 0)" by code_simp
  have b: "time_of_day (at_time 6 15) < time_of_day (at_time 18 0)" by code_simp
  have c: "time_of_day (at_time 18 0) - time_of_day (at_time 6 15) = 42300000000" by code_simp
  have e: "hours24 - 42300000000 = 44100000000" by code_simp
  show ?thesis using single_window_same_day [OF a b] by (simp only: c e)
qed

text \<open>
  C8, as the claim gives its example: for 20:00 and 06:00 the schedule would be \<open>OFF\<close> for
  10 hours and \<open>ON\<close> for 14. The code writes \<open>ON H10 M0\<close> and \<open>OFF H14 M0\<close>, as the
  general rule of the claim has it.
\<close>

theorem single_window_wrap_example_counterexample:
  "single_window (at_time 20 0) (at_time 6 0) = ((10, 0), (14, 0))
   \<and> single_window (at_time 20 0) (at_time 6 0) \<noteq> ((14, 0), (10, 0))
   \<and> segment_lines
       (witty_schedule_lines (at_time 10 30) (at_time 20 0) (at_time 6 0) None None) =
       [''ON H10 M0'' @ nl, ''OFF H14 M0'' @ nl]"
  by code_simp

text \<open>
  C8, amended. When the switch-on time is the later of the two on one date, the \<open>OFF\<close>
  length is the difference of the two times and the \<open>ON\<close> length is the rest of the
  24 hours. For 20:00 and 06:00 the file says \<open>ON H10 M0\<close> and \<open>OFF H14 M0\<close>.
\<close>

theorem single_window_wrap:
  assumes "same_date time_on time_off" and "time_of_day time_off < time_of_day time_on"
  shows "single_window time_on time_off =
           (hours_mins (hours24 - (time_of_day time_on - time_of_day time_off)),
            hours_mins (time_of_day time_on - time_of_day time_off))
         \<and> hm_seconds (snd (single_window time_on time_off)) =
             total_seconds (time_of_day time_on - time_of_day time_off)
         \<and> hm_seconds (fst (single_window time_on time_off)) =
             total_seconds (hours24 - (time_of_day time_on - time_of_day time_off))
         \<and> segment_lines
             (witty_schedule_lines (at_time 10 30) (at_time 20 0) (at_time 6 0) None None) =
             [''ON H10 M0'' @ nl, ''OFF H14 M0'' @ nl]"
proof -
  have d: "dt_sub time_off time_on = time_of_day time_off - time_of_day time_on"
      "dt_sub time_on time_off = time_of_day time_on - time_of_day time_off"
    using assms(1) by (simp_all add: dt_sub_same_date same_date_def)
  have sw: "single_window time_on time_off =
           (hours_mins (hours24 - (time_of_day time_on - time_of_day time_off)),
            hours_mins (time_of_day time_on - time_of_day time_off))"
    using assms(2) by (simp add: single_window_def d Let_def)
  have ex: "segment_lines
      (witty_schedule_lines (at_time 10 30) (at_time 20 0) (at_time 6 0) None None) =
      [''ON H10 M0'' @ nl, ''OFF H14 M0'' @ nl]"
    by code_simp
  show ?thesis
    by (simp only: sw fst_conv snd_conv hm_seconds_hours_mins ex simp_thms)
qed

theorem single_window_wrap_witness:
  "single_window (at_time 20 0) (at_time 6 0) =
     (hours_mins 36000000000, hours_mins 50400000000)"
proof -
  have a: "same_date (at_time 20 0) (at_time 6 0)" by code_simp
  have b: "time_of_day (at_time 6 0) < time_of_day (at_time 20 0)" by code_simp
  have c: "time_of_day (at_time 20 0) - time_of_day (at_time 6 0) = 50400000000" by code_simp
  have e: "hours24 - 50400000000 = 36000000000" by code_simp
  show ?thesis using single_window_wrap [OF a b] by (simp only: c e)
qed

text \<open>
  C6, as the claim states it: with equal times no schedule would be written unless the
  caller says which. The function has no such parameter; for 06:00 and 06:00 it
  writes the file below.
\<close>

theorem single_window_equal_counterexample:
  "write_witty_schedule_file Map.empty (at_time 10 30) ''wittypi/schedule.wpi''
       (at_time 6 0) (at_time 6 0) None None =
     Inr [''wittypi/schedule.wpi'' \<mapsto>
       ''# Raspberry Pi start-up/shut-down schedule script'' @ nl @
       ''# on_time=06:00'' @ nl @
       ''# off_time=06:00'' @ nl @
       ''BEGIN 2021-03-14 06:00:00'' @ nl @
       ''END 2038-01-01 12:00:00'' @ nl @
       ''ON H24 M0'' @ nl @
       ''OFF H0 M0'' @ nl]"
  unfolding write_witty_schedule_file_def
  apply (rule arg_cong [where f = Inr])
  apply (rule arg_cong [where f = "\<lambda>v. Map.empty(''wittypi/schedule.wpi'' \<mapsto> v)"])
  apply code_simp
  done

text \<open>
  C6, amended. With equal times the one-window form takes 24 hours on and none off,
  and the function writes the schedule with the lines \<open>ON H24 M0\<close> and \<open>OFF H0 M0\<close>
  without an error.
\<close>

theorem single_window_equal:
  assumes "dt_sub time_off time_on = 0" and "time_off_2 = None \<or> time_on_2 = None"
  shows "single_window time_on time_off = ((24, 0), (0, 0))
       \<and> segment_lines (witty_schedule_lines date_now time_on time_off time_on_2 time_off_2) =
           [''ON H24 M0'' @ nl, ''OFF H0 M0'' @ nl]
       \<and> (\<exists>fs'. write_witty_schedule_file fs date_now filename time_on time_off time_on_2 time_off_2
                   = Inr fs'
              \<and> fs' filename =
                  Some (concat (witty_schedule_lines date_now time_on time_off time_on_2 time_off_2)))"
proof -
  have sw: "single_window time_on time_off = ((24, 0), (0, 0))"
    using assms(1) by (simp add: single_window_def)
  have l1: "segment_line ''ON'' (24, 0) = ''ON H24 M0'' @ nl" by code_simp
  have l2: "segment_line ''OFF'' (0, 0) = ''OFF H0 M0'' @ nl" by code_simp
  show ?thesis
    by (simp add: sw segment_lines_single [OF assms(2)] l1 l2 write_witty_schedule_file_def)
qed

theorem single_window_equal_witness:
  "single_window (at_time 6 0) (at_time 6 0) = ((24, 0), (0, 0))"
proof -
  have a: "dt_sub (at_time 6 0) (at_time 6 0) = 0" by code_simp
  have e: "(None :: datetime option) = None \<or> (None :: datetime option) = None" by simp
  from single_window_equal [OF a e] show ?thesis by blast
qed

section \<open>Two windows\<close>

lemma in_window_start:
  assumes "valid_datetime w_on" and "time_of_day w_on \<noteq> time_of_day w_off"
  shows "in_window w_on w_off (time_of_day w_on)"
  using assms time_of_day_range [OF assms(1)] by (auto simp: in_window_def)

lemma no_overlap_order:
  assumes v: "valid_datetime w_on" "valid_datetime w_off" "valid_datetime v_on" "valid_datetime v_off"
    and ne: "time_of_day w_on \<noteq> time_of_day w_off" "time_of_day v_on \<noteq> time_of_day v_off"
    and no: "\<not> windows_overlap w_on w_off v_on v_off"
    and lt: "time_of_day w_on < time_of_day v_on"
  shows "time_of_day w_on < time_of_day w_off"
    and "time_of_day w_off \<le> time_of_day v_on"
    and "time_of_day v_on < time_of_day v_off \<or> time_of_day v_off \<le> time_of_day w_on"
proof -
  let ?a = "time_of_day w_on" and ?b = "time_of_day w_off"
  let ?c = "time_of_day v_on" and ?d = "time_of_day v_off"
  note r = time_of_day_range [OF v(1)] time_of_day_range [OF v(2)]
    time_of_day_range [OF v(3)] time_of_day_range [OF v(4)]
  have vc: "in_window v_on v_off ?c" by (rule in_window_start [OF v(3) ne(2)])
  have wa: "in_window w_on w_off ?a" by (rule in_window_start [OF v(1) ne(1)])
  have nc: "\<not> in_window w_on w_off ?c" using no vc by (auto simp: windows_overlap_def)
  have na: "\<not> in_window v_on v_off ?a" using no wa by (auto simp: windows_overlap_def)
  show ab: "?a < ?b"
  proof (rule ccontr)
    assume "\<not> ?a < ?b"
    with ne(1) have "?b < ?a" by simp
    with lt r have "in_window w_on w_off ?c" by (simp add: in_window_def)
    with nc show False ..
  qed
  show "?b \<le> ?c"
  proof (rule ccontr)
    assume "\<not> ?b \<le> ?c"
    with ab lt have "in_window w_on w_off ?c" by (simp add: in_window_def)
    with nc show False ..
  qed
  show "?c < ?d \<or> ?d \<le> ?a"
  proof (rule ccontr)
    assume "\<not> (?c < ?d \<or> ?d \<le> ?a)"
    with ne(2) have "?d < ?c" "?a < ?d" by simp_all
    with r have "in_window v_on v_off ?a" by (simp add: in_window_def)
    with na show False ..
  qed
qed

lemma windows_overlap_sym:
  "windows_overlap w_on w_off v_on v_off = windows_overlap v_on v_off w_on w_off"
  by (auto simp: windows_overlap_def)

lemma window_length_plain:
  assumes "valid_datetime w_on" and "valid_datetime w_off"
    and "time_of_day w_on < time_of_day w_off"
  shows "window_length w_on w_off = time_of_day w_off - time_of_day w_on"
  using assms(3) time_of_day_range [OF assms(1)] time_of_day_range [OF assms(2)]
  by (simp add: window_length_def)

lemma window_length_wrap:
  assumes "valid_datetime w_on" and "valid_datetime w_off"
    and "time_of_day w_off < time_of_day w_on"
  shows "window_length w_on w_off = hours24 - (time_of_day w_on - time_of_day w_off)"
proof -
  let ?x = "time_of_day w_off - time_of_day w_on"
  note r = time_of_day_range [OF assms(1)] time_of_day_range [OF assms(2)]
  have "?x mod hours24 = (?x + hours24) mod hours24" by simp
  also have "\<dots> = ?x + hours24" using assms(3) r by (intro mod_pos_pos_trivial) simp_all
  finally show ?thesis by (simp add: window_length_def)
qed

lemma dual_deltas_sum:
  "(case dual_deltas time_on time_off time_on_2 time_off_2 of
      (d1, d2, d3, d4) \<Rightarrow> d1 + d2 + d3 + d4) = hours24"
  by (simp add: dual_deltas_def Let_def split: prod.splits)

lemma dual_deltas_first:
  assumes s: "same_date w_on w_off" "same_date w_on v_on" "same_date w_on v_off"
    and ab: "time_of_day w_on < time_of_day w_off"
    and lt: "time_of_day w_on < time_of_day v_on"
  shows "dual_deltas w_on w_off v_on v_off =
     (let a = time_of_day w_on; b = time_of_day w_off; c = time_of_day v_on; d = time_of_day v_off
      in if c < d then (b - a, c - b, d - c, hours24 - (d - a))
         else (b - a, c - b, hours24 - (c - d), a - d))"
proof -
  have sd: "same_date v_on v_off" "same_date v_on w_off" "same_date w_off w_on"
      "same_date v_off w_on" "same_date v_on w_on" "same_date v_off v_on"
    using s by (simp_all add: same_date_def)
  show ?thesis
    using ab lt
    by (simp add: dual_deltas_def dual_order_def Let_def
        dt_less_same_date [OF s(1)] dt_less_same_date [OF s(2)] dt_less_same_date [OF sd(1)]
        dt_sub_same_date [OF sd(3)] dt_sub_same_date [OF sd(2)] dt_sub_same_date [OF sd(6)]
        dt_sub_same_date [OF sd(4)] dt_sub_same_date [OF s(3)])
qed

lemma dual_deltas_second:
  assumes s: "same_date w_on w_off" "same_date w_on v_on" "same_date w_on v_off"
    and cd: "time_of_day v_on < time_of_day v_off"
    and lt: "time_of_day v_on < time_of_day w_on"
  shows "dual_deltas w_on w_off v_on v_off =
     (let a = time_of_day w_on; b = time_of_day w_off; c = time_of_day v_on; d = time_of_day v_off
      in if a < b then (d - c, a - d, b - a, hours24 - (b - c))
         else (d - c, a - d, hours24 - (a - b), c - b))"
proof -
  have sd: "same_date v_on v_off" "same_date v_on w_off" "same_date w_off w_on"
      "same_date v_off w_on" "same_date v_on w_on" "same_date v_off v_on"
      "same_date w_off v_on"
    using s by (simp_all add: same_date_def)
  show ?thesis
    using cd lt
    by (simp add: dual_deltas_def dual_order_def Let_def
        dt_less_same_date [OF s(1)] dt_less_same_date [OF s(2)] dt_less_same_date [OF sd(1)]
        dt_sub_same_date [OF sd(3)] dt_sub_same_date [OF sd(2)] dt_sub_same_date [OF sd(6)]
        dt_sub_same_date [OF sd(4)] dt_sub_same_date [OF s(3)] dt_sub_same_date [OF sd(7)])
qed


text \<open>
  C2. Two windows on one date, each with different opening and closing times, that share
  no time of day: the schedule has four lines \<open>ON\<close>, \<open>OFF\<close>, \<open>ON\<close>, \<open>OFF\<close>; the four
  lengths are not negative (the two \<open>ON\<close> lengths positive), add up to 24 hours, and the
  \<open>ON\<close> lengths are the lengths of the two windows, the one that opens earlier first.
  When the four times are on whole minutes, each line prints its length as it is. For
  06:00 to 09:00 and 18:00 to 21:00 the lines are \<open>ON H3 M0\<close>, \<open>OFF H9 M0\<close>,
  \<open>ON H3 M0\<close>, \<open>OFF H9 M0\<close>.
\<close>

theorem dual_window_segments:
  assumes v: "valid_datetime time_on" "valid_datetime time_off"
      "valid_datetime time_on_2" "valid_datetime time_off_2"
    and s: "same_date time_on time_off" "same_date time_on time_on_2" "same_date time_on time_off_2"
    and ne: "time_of_day time_on \<noteq> time_of_day time_off"
      "time_of_day time_on_2 \<noteq> time_of_day time_off_2"
    and no: "\<not> windows_overlap time_on time_off time_on_2 time_off_2"
  shows "\<exists>d1 d2 d3 d4.
      dual_deltas time_on time_off time_on_2 time_off_2 = (d1, d2, d3, d4)
    \<and> 0 < d1 \<and> 0 \<le> d2 \<and> 0 < d3 \<and> 0 \<le> d4 \<and> d1 + d2 + d3 + d4 = hours24
    \<and> (d1, d3) =
        (if time_of_day time_on < time_of_day time_on_2
         then (window_length time_on time_off, window_length time_on_2 time_off_2)
         else (window_length time_on_2 time_off_2, window_length time_on time_off))
    \<and> segment_lines
        (witty_schedule_lines date_now time_on time_off (Some time_on_2) (Some time_off_2)) =
        [segment_line ''ON'' (hours_mins d1), segment_line ''OFF'' (hours_mins d2),
         segment_line ''ON'' (hours_mins d3), segment_line ''OFF'' (hours_mins d4)]
    \<and> hm_seconds (hours_mins d1) + hm_seconds (hours_mins d2) + hm_seconds (hours_mins d3)
        + hm_seconds (hours_mins d4) = 24 * 3600
    \<and> (whole_minute time_on \<and> whole_minute time_off
          \<and> whole_minute time_on_2 \<and> whole_minute time_off_2 \<longrightarrow>
        printed_minutes (hours_mins d1) * 60000000 = d1
      \<and> printed_minutes (hours_mins d2) * 60000000 = d2
      \<and> printed_minutes (hours_mins d3) * 60000000 = d3
      \<and> printed_minutes (hours_mins d4) * 60000000 = d4)
    \<and> segment_lines
        (witty_schedule_lines (at_time 10 30) (at_time 6 0) (at_time 9 0)
           (Some (at_time 18 0)) (Some (at_time 21 0))) =
        [''ON H3 M0'' @ nl, ''OFF H9 M0'' @ nl, ''ON H3 M0'' @ nl, ''OFF H9 M0'' @ nl]"
proof -
  let ?a = "time_of_day time_on" and ?b = "time_of_day time_off"
  let ?c = "time_of_day time_on_2" and ?d = "time_of_day time_off_2"
  note r = time_of_day_range [OF v(1)] time_of_day_range [OF v(2)]
    time_of_day_range [OF v(3)] time_of_day_range [OF v(4)]
  have ex: "segment_lines
        (witty_schedule_lines (at_time 10 30) (at_time 6 0) (at_time 9 0)
           (Some (at_time 18 0)) (Some (at_time 21 0))) =
        [''ON H3 M0'' @ nl, ''OFF H9 M0'' @ nl, ''ON H3 M0'' @ nl, ''OFF H9 M0'' @ nl]"
    by code_simp
  have sum: "hm_seconds (hours_mins x1) + hm_seconds (hours_mins x2) + hm_seconds (hours_mins x3)
        + hm_seconds (hours_mins x4) = 24 * 3600"
    if "x1 + x2 + x3 + x4 = hours24" for x1 x2 x3 x4
  proof -
    have "total_seconds x1 + total_seconds x2 + total_seconds x3 + total_seconds x4 =
        total_seconds (x1 + x2 + x3 + x4)"
      by (simp add: total_seconds_add)
    then show ?thesis by (simp add: hm_seconds_hours_mins that total_seconds_hours24)
  qed
  have wm: "whole_minute time_on \<and> whole_minute time_off
          \<and> whole_minute time_on_2 \<and> whole_minute time_off_2 \<longrightarrow>
        printed_minutes (hours_mins x1) * 60000000 = x1
      \<and> printed_minutes (hours_mins x2) * 60000000 = x2
      \<and> printed_minutes (hours_mins x3) * 60000000 = x3
      \<and> printed_minutes (hours_mins x4) * 60000000 = x4"
    if "dual_deltas time_on time_off time_on_2 time_off_2 = (x1, x2, x3, x4)" for x1 x2 x3 x4
    using dual_deltas_whole_minute [OF _ _ _ _ that]
    by (auto intro: printed_minutes_exact)
  have ac: "?a \<noteq> ?c"
  proof
    assume "?a = ?c"
    with in_window_start [OF v(1) ne(1)] in_window_start [OF v(3) ne(2)]
    have "windows_overlap time_on time_off time_on_2 time_off_2"
      by (auto simp: windows_overlap_def)
    with no show False ..
  qed
  have fin: ?thesis
    if dd: "dual_deltas time_on time_off time_on_2 time_off_2 = (x1, x2, x3, x4)"
      and pos: "0 < x1" "0 \<le> x2" "0 < x3" "0 \<le> x4"
      and tot: "x1 + x2 + x3 + x4 = hours24"
      and len: "(x1, x3) =
        (if ?a < ?c
         then (window_length time_on time_off, window_length time_on_2 time_off_2)
         else (window_length time_on_2 time_off_2, window_length time_on time_off))"
    for x1 x2 x3 x4
    apply (rule exI [of _ x1], rule exI [of _ x2], rule exI [of _ x3], rule exI [of _ x4])
    apply (intro conjI)
    apply (rule dd)
    apply (rule pos)+
    apply (rule tot)
    apply (rule len)
    apply (simp add: segment_lines_dual dual_window_def dd)
    apply (rule sum [OF tot])
    apply (rule wm [OF dd])
    apply (rule ex)
    done
  show ?thesis
  proof (cases "?a < ?c")
    case True
    note o = no_overlap_order [OF v ne no True]
    have dd: "dual_deltas time_on time_off time_on_2 time_off_2 =
        (if ?c < ?d then (?b - ?a, ?c - ?b, ?d - ?c, hours24 - (?d - ?a))
         else (?b - ?a, ?c - ?b, hours24 - (?c - ?d), ?a - ?d))"
      using dual_deltas_first [OF s o(1) True] by (simp add: Let_def)
    show ?thesis
    proof (cases "?c < ?d")
      case cd: True
      show ?thesis
        apply (rule fin [of "?b - ?a" "?c - ?b" "?d - ?c" "hours24 - (?d - ?a)"])
        using dd cd o r True
          apply (simp_all add: window_length_plain [OF v(1) v(2) o(1)]
            window_length_plain [OF v(3) v(4) cd])
        done
    next
      case False
      with ne(2) have dc: "?d < ?c" by simp
      show ?thesis
        apply (rule fin [of "?b - ?a" "?c - ?b" "hours24 - (?c - ?d)" "?a - ?d"])
        using dd dc o r True
          apply (simp_all add: window_length_plain [OF v(1) v(2) o(1)]
            window_length_wrap [OF v(3) v(4) dc])
        done
    qed
  next
    case False
    with ac have ca: "?c < ?a" by simp
    have no': "\<not> windows_overlap time_on_2 time_off_2 time_on time_off"
      using no by (simp add: windows_overlap_sym)
    note o = no_overlap_order [OF v(3) v(4) v(1) v(2) ne(2) ne(1) no' ca]
    have dd: "dual_deltas time_on time_off time_on_2 time_off_2 =
        (if ?a < ?b then (?d - ?c, ?a - ?d, ?b - ?a, hours24 - (?b - ?c))
         else (?d - ?c, ?a - ?d, hours24 - (?a - ?b), ?c - ?b))"
      using dual_deltas_second [OF s o(1) ca] by (simp add: Let_def)
    show ?thesis
    proof (cases "?a < ?b")
      case ab: True
      show ?thesis
        apply (rule fin [of "?d - ?c" "?a - ?d" "?b - ?a" "hours24 - (?b - ?c)"])
        using dd ab o r ca
          apply (simp_all add: window_length_plain [OF v(1) v(2) ab]
            window_length_plain [OF v(3) v(4) o(1)])
        done
    next
      case False
      with ne(1) have ba: "?b < ?a" by simp
      show ?thesis
        apply (rule fin [of "?d - ?c" "?a - ?d" "hours24 - (?a - ?b)" "?c - ?b"])
        using dd ba o r ca
          apply (simp_all add: window_length_plain [OF v(3) v(4) o(1)]
            window_length_wrap [OF v(1) v(2) ba])
        done
    qed
  qed
qed

theorem dual_window_segments_witness:
  "\<exists>d1 d2 d3 d4.
      dual_deltas (at_time 6 0) (at_time 9 0) (at_time 18 0) (at_time 21 0) = (d1, d2, d3, d4)
    \<and> 0 < d1 \<and> 0 \<le> d2 \<and> 0 < d3 \<and> 0 \<le> d4 \<and> d1 + d2 + d3 + d4 = hours24"
proof -
  have v: "valid_datetime (at_time 6 0)" "valid_datetime (at_time 9 0)"
      "valid_datetime (at_time 18 0)" "valid_datetime (at_time 21 0)"
    by code_simp+
  have s: "same_date (at_time 6 0) (at_time 9 0)" "same_date (at_time 6 0) (at_time 18 0)"
      "same_date (at_time 6 0) (at_time 21 0)"
    by code_simp+
  have ne: "time_of_day (at_time 6 0) \<noteq> time_of_day (at_time 9 0)"
      "time_of_day (at_time 18 0) \<noteq> time_of_day (at_time 21 0)"
    by code_simp+
  have t: "time_of_day (at_time 6 0) = 21600000000" "time_of_day (at_time 9 0) = 32400000000"
      "time_of_day (at_time 18 0) = 64800000000" "time_of_day (at_time 21 0) = 75600000000"
    by code_simp+
  have no: "\<not> windows_overlap (at_time 6 0) (at_time 9 0) (at_time 18 0) (at_time 21 0)"
    by (simp add: windows_overlap_def in_window_def t)
  from dual_window_segments [OF v s ne no, of "at_time 10 30"] show ?thesis by blast
qed

text \<open>
  C5, as the claim states it: two windows that cannot be put in order make the function
  fail. The second window below opens and closes at 18:00; the function returns
  normally and the file it writes has an \<open>OFF\<close> line of minus twelve hours.
\<close>

theorem dual_window_degenerate_counterexample:
  "write_witty_schedule_file Map.empty (at_time 10 30) ''wittypi/schedule.wpi''
       (at_time 6 0) (at_time 9 0) (Some (at_time 18 0)) (Some (at_time 18 0)) =
     Inr [''wittypi/schedule.wpi'' \<mapsto>
       ''# Raspberry Pi start-up/shut-down schedule script'' @ nl @
       ''# on_time=06:00'' @ nl @
       ''# off_time=09:00'' @ nl @
       ''# on_time_2=18:00'' @ nl @
       ''# off_time_2=18:00'' @ nl @
       ''BEGIN 2021-03-14 06:00:00'' @ nl @
       ''END 2038-01-01 12:00:00'' @ nl @
       ''ON H3 M0'' @ nl @
       ''OFF H9 M0'' @ nl @
       ''ON H24 M0'' @ nl @
       ''OFF H-12 M0'' @ nl]"
  unfolding write_witty_schedule_file_def
  apply (rule arg_cong [where f = Inr])
  apply (rule arg_cong [where f = "\<lambda>v. Map.empty(''wittypi/schedule.wpi'' \<mapsto> v)"])
  apply code_simp
  done

text \<open>
  C5, amended. The two-window form checks nothing: for any four times the function
  returns normally and writes the four lines \<open>ON\<close>, \<open>OFF\<close>, \<open>ON\<close>, \<open>OFF\<close> from four
  lengths that add up to 24 hours.
\<close>

theorem dual_window_no_validation:
  "\<exists>fs' d1 d2 d3 d4.
      write_witty_schedule_file fs date_now filename time_on time_off
          (Some time_on_2) (Some time_off_2) = Inr fs'
    \<and> fs' filename =
        Some (concat (witty_schedule_lines date_now time_on time_off
                        (Some time_on_2) (Some time_off_2)))
    \<and> dual_deltas time_on time_off time_on_2 time_off_2 = (d1, d2, d3, d4)
    \<and> d1 + d2 + d3 + d4 = hours24
    \<and> segment_lines
        (witty_schedule_lines date_now time_on time_off (Some time_on_2) (Some time_off_2)) =
        [segment_line ''ON'' (hours_mins d1), segment_line ''OFF'' (hours_mins d2),
         segment_line ''ON'' (hours_mins d3), segment_line ''OFF'' (hours_mins d4)]"
proof -
  obtain d1 d2 d3 d4 where dd: "dual_deltas time_on time_off time_on_2 time_off_2 = (d1, d2, d3, d4)"
    by (metis prod_cases4)
  with dual_deltas_sum [of time_on time_off time_on_2 time_off_2]
  have "d1 + d2 + d3 + d4 = hours24" by simp
  with dd show ?thesis
    by (simp add: write_witty_schedule_file_def segment_lines_dual dual_window_def)
qed

theorem dual_window_no_validation_witness:
  "\<exists>fs'. write_witty_schedule_file Map.empty (at_time 10 30) ''wittypi/schedule.wpi''
       (at_time 6 0) (at_time 6 0) (Some (at_time 6 0)) (Some (at_time 6 0)) = Inr fs'"
  using dual_window_no_validation [of Map.empty "at_time 10 30" "''wittypi/schedule.wpi''"
      "at_time 6 0" "at_time 6 0" "at_time 6 0" "at_time 6 0"]
  by blast

section \<open>Text of the file\<close>

lemma of_char_digit_char: "n < 10 \<Longrightarrow> (of_char (digit_char n) :: nat) = 48 + n"
  by (simp add: digit_char_def)

lemma digit_val_digit_char: "n < 10 \<Longrightarrow> digit_val (digit_char n) = Some n"
  by (simp add: digit_val_def of_char_digit_char)

lemma not_space_digit_char: "n < 10 \<Longrightarrow> \<not> py_isspace (digit_char n)"
  by (simp add: py_isspace_def of_char_digit_char)

lemma dec_digits_range:
  "c \<in> set (dec_digits n) \<Longrightarrow> 48 \<le> (of_char c :: nat) \<and> (of_char c :: nat) \<le> 57"
proof (induction n rule: dec_digits.induct)
  case (1 n)
  show ?case
  proof (cases "n < 10")
    case True
    with "1.prems" show ?thesis
      by (simp add: dec_digits.simps [of n] of_char_digit_char)
  next
    case False
    with "1.prems" "1.IH" show ?thesis
      by (auto simp: dec_digits.simps [of n] of_char_digit_char)
  qed
qed


lemma plain_append [simp]: "plain (s @ t) = (plain s \<and> plain t)"
  by (auto simp: plain_def)

lemma plain_Cons [simp]: "plain (c # s) = (c \<noteq> CHR ''='' \<and> c \<noteq> CHR 0x0A \<and> plain s)"
  by (auto simp: plain_def)

lemma plain_Nil [simp]: "plain []"
  by (simp add: plain_def)

lemma plain_dec_digits [simp]: "plain (dec_digits n)"
  using dec_digits_range [of "CHR ''=''" n] dec_digits_range [of "CHR 0x0A" n]
  by (auto simp: plain_def)

lemma plain_replicate [simp]: "c \<noteq> CHR ''='' \<Longrightarrow> c \<noteq> CHR 0x0A \<Longrightarrow> plain (replicate k c)"
  by (auto simp: plain_def)

lemma plain_zero_pad [simp]: "plain (zero_pad w n)"
  by (simp add: zero_pad_def Let_def)

lemma plain_strftime [simp]:
  "plain (strftime_HM d)" "plain (strftime_HMS d)" "plain (strftime_Ymd d)"
  by (simp_all add: strftime_HM_def strftime_HMS_def strftime_Ymd_def)

lemma plain_format_0f [simp]: "plain (format_0f x)"
  by (simp add: format_0f_def str_int_def Let_def)

lemma zero_pad_2:
  assumes "0 \<le> n" and "n < 100"
  shows "zero_pad 2 n = [digit_char (nat n div 10), digit_char (nat n mod 10)]"
proof (cases "nat n < 10")
  case True
  have z: "CHR ''0'' = digit_char 0" by code_simp
  from True show ?thesis
    by (simp add: zero_pad_def dec_digits.simps [of "nat n"] z)
next
  case False
  moreover have "nat n div 10 < 10" using assms by simp
  ultimately show ?thesis
    by (simp add: zero_pad_def dec_digits.simps [of "nat n"] dec_digits.simps [of "nat n div 10"])
qed

lemma digit_char_no_sign:
  assumes "n < 10"
  shows "digit_char n \<noteq> CHR ''-''" "digit_char n \<noteq> CHR ''+''" "digit_char n \<noteq> CHR ''_''"
  using assms of_char_digit_char [OF assms] by auto

lemma py_int_two_digits:
  assumes "a < 10" and "b < 10"
  shows "py_int [digit_char a, digit_char b] = Some (int (a * 10 + b))"
  using assms
  by (simp add: py_int_def strip_def not_space_digit_char digit_val_digit_char Let_def
      digit_char_no_sign max_str_digits_def)

lemma py_int_zero_pad_2:
  assumes "0 \<le> n" and "n < 100"
  shows "py_int (zero_pad 2 n) = Some n"
proof -
  have "nat n div 10 < 10" "nat n mod 10 < 10" using assms by simp_all
  from py_int_two_digits [OF this] assms show ?thesis
    by (simp add: zero_pad_2)
qed

lemma split_char_none: "c \<notin> set s \<Longrightarrow> split_char c s = [s]"
  by (induction s) auto

lemma split_char_first: "c \<notin> set s \<Longrightarrow> split_char c (s @ c # t) = s # split_char c t"
  by (induction s) auto

lemma colon_dec_digits: "CHR '':'' \<notin> set (dec_digits n)"
  using dec_digits_range [of "CHR '':''" n] by auto

lemma hour_min_strftime:
  assumes "valid_datetime d"
  shows "hour_min (strftime_HM d) = Inr (hour d, minute d)"
proof -
  have h: "0 \<le> hour d" "hour d < 100" and m: "0 \<le> minute d" "minute d < 100"
    using assms by (simp_all add: valid_datetime_def)
  have c: "CHR '':'' \<notin> set (zero_pad 2 (hour d))" "CHR '':'' \<notin> set (zero_pad 2 (minute d))"
    by (simp_all add: zero_pad_def Let_def colon_dec_digits)
  have "split_char CHR '':'' (strftime_HM d) = [zero_pad 2 (hour d), zero_pad 2 (minute d)]"
    by (simp add: strftime_HM_def split_char_first [OF c(1)] split_char_none [OF c(2)])
  then show ?thesis
    by (simp add: hour_min_def py_int_zero_pad_2 [OF h] py_int_zero_pad_2 [OF m])
qed

lemma field_value_key:
  assumes "plain k" and "plain v"
  shows "field_value (k @ CHR ''='' # v @ nl) = Inr v"
proof -
  from assms have k: "CHR ''='' \<notin> set k" and v: "CHR ''='' \<notin> set (v @ nl)"
    and n: "CHR 0x0A \<notin> set v"
    by (simp_all add: plain_def nl_def)
  have "split_char CHR ''='' (k @ CHR ''='' # v @ nl) = [k, v @ nl]"
    by (simp add: split_char_first [OF k] split_char_none [OF v])
  moreover have "split_char (CHR 0x0A) (v @ nl) = [v, []]"
    by (simp add: nl_def split_char_first [OF n])
  ultimately show ?thesis by (simp add: field_value_def)
qed

lemma parse_line_key:
  assumes "plain k" and "valid_datetime d"
  shows "parse_line (k @ CHR ''='' # strftime_HM d @ nl) = Inr (hour d, minute d)"
  by (simp add: parse_line_def field_value_key [OF assms(1)] hour_min_strftime [OF assms(2)])

lemma str_contains_set: "str_contains key s \<Longrightarrow> set key \<subseteq> set s"
proof (induction s)
  case Nil
  then show ?case by simp
next
  case (Cons x xs)
  from Cons.prems have "prefix key (x # xs) \<or> str_contains key xs" by simp
  then show ?case
  proof
    assume "prefix key (x # xs)"
    then show ?thesis by (rule set_mono_prefix)
  next
    assume "str_contains key xs"
    with Cons.IH show ?thesis by auto
  qed
qed

lemma no_key_plain:
  assumes "CHR ''='' \<notin> set s"
  shows "\<not> str_contains ''on_time='' s" "\<not> str_contains ''off_time='' s"
    "\<not> str_contains ''on_time_2='' s" "\<not> str_contains ''off_time_2='' s"
  using assms str_contains_set [of "''on_time=''" s] str_contains_set [of "''off_time=''" s]
    str_contains_set [of "''on_time_2=''" s] str_contains_set [of "''off_time_2=''" s]
  by auto

lemma read_lines_skip:
  assumes "CHR ''='' \<notin> set line"
  shows "read_lines (line # rest) st = read_lines rest st"
  using no_key_plain [OF assms] by (cases st) simp

lemma file_lines_line:
  "CHR 0x0A \<notin> set b \<Longrightarrow> file_lines (b @ CHR 0x0A # rest) = (b @ [CHR 0x0A]) # file_lines rest"
  by (induction b) auto


lemma read_on_time:
  assumes "valid_datetime d"
  shows "read_lines ((''# on_time='' @ strftime_HM d @ nl) # rest) (a, b, c, e) =
     read_lines rest ((Some (hour d), Some (minute d)), b, c, e)"
  using parse_line_key [of "''# on_time''" d, OF _ assms]
  by simp

lemma read_off_time:
  assumes "valid_datetime d"
  shows "read_lines ((''# off_time='' @ strftime_HM d @ nl) # rest) (a, b, c, e) =
     read_lines rest (a, (Some (hour d), Some (minute d)), c, e)"
proof -
  have "CHR ''='' \<notin> set (strftime_HM d @ nl)"
    using plain_strftime(1) [of d] by (simp add: plain_def nl_def)
  from no_key_plain(1) [OF this] parse_line_key [of "''# off_time''" d, OF _ assms]
  show ?thesis by simp
qed

lemma read_on_time_2:
  assumes "valid_datetime d"
  shows "read_lines ((''# on_time_2='' @ strftime_HM d @ nl) # rest) (a, b, c, e) =
     read_lines rest (a, b, (Some (hour d), Some (minute d)), e)"
proof -
  have "CHR ''='' \<notin> set (strftime_HM d @ nl)"
    using plain_strftime(1) [of d] by (simp add: plain_def nl_def)
  from no_key_plain(1,2) [OF this] parse_line_key [of "''# on_time_2''" d, OF _ assms]
  show ?thesis by simp
qed

lemma read_off_time_2:
  assumes "valid_datetime d"
  shows "read_lines ((''# off_time_2='' @ strftime_HM d @ nl) # rest) (a, b, c, e) =
     read_lines rest (a, b, c, (Some (hour d), Some (minute d)))"
proof -
  have "CHR ''='' \<notin> set (strftime_HM d @ nl)"
    using plain_strftime(1) [of d] by (simp add: plain_def nl_def)
  from no_key_plain(1,2,3) [OF this] parse_line_key [of "''# off_time_2''" d, OF _ assms]
  show ?thesis by simp
qed

section \<open>Writing and reading back\<close>

lemma is_line_nl [simp]: "CHR 0x0A \<notin> set b \<Longrightarrow> is_line (b @ nl)"
  by (simp add: is_line_def nl_def)

lemma file_lines_concat: "(\<And>l. l \<in> set ls \<Longrightarrow> is_line l) \<Longrightarrow> file_lines (concat ls) = ls"
proof (induction ls)
  case Nil
  then show ?case by simp
next
  case (Cons l ls)
  have "is_line l" by (rule Cons.prems) simp
  then have l: "l = butlast l @ [CHR 0x0A]" and n: "CHR 0x0A \<notin> set (butlast l)"
    by (auto simp: is_line_def dest: append_butlast_last_id)
  have "file_lines (concat (l # ls)) = file_lines (butlast l @ CHR 0x0A # concat ls)"
    using l by (metis append.assoc append_Cons append_Nil concat.simps(2))
  also have "\<dots> = (butlast l @ [CHR 0x0A]) # file_lines (concat ls)"
    by (rule file_lines_line [OF n])
  also have "file_lines (concat ls) = ls"
    by (rule Cons.IH) (simp add: Cons.prems)
  finally show ?case using l by simp
qed

lemma nl_free:
  "CHR 0x0A \<notin> set (strftime_HM d)" "CHR 0x0A \<notin> set (strftime_HMS d)"
  "CHR 0x0A \<notin> set (strftime_Ymd d)" "CHR 0x0A \<notin> set (format_0f x)"
  using plain_strftime [of d] plain_format_0f [of x] by (simp_all add: plain_def)

lemma eq_free:
  "CHR ''='' \<notin> set (strftime_HM d)" "CHR ''='' \<notin> set (strftime_HMS d)"
  "CHR ''='' \<notin> set (strftime_Ymd d)" "CHR ''='' \<notin> set (format_0f x)"
  using plain_strftime [of d] plain_format_0f [of x] by (simp_all add: plain_def)

lemma single_file_lines:
  assumes "time_off_2 = None \<or> time_on_2 = None"
  shows "file_lines (concat (witty_schedule_lines date_now time_on time_off time_on_2 time_off_2)) =
    witty_schedule_lines date_now time_on time_off time_on_2 time_off_2"
proof (rule file_lines_concat)
  fix l
  assume "l \<in> set (witty_schedule_lines date_now time_on time_off time_on_2 time_off_2)"
  then show "is_line l"
    unfolding single_lines [OF assms]
    by (auto simp: is_line_def nl_def segment_line_def nl_free butlast_append)
qed

lemma dual_file_lines:
  "file_lines (concat (witty_schedule_lines date_now time_on time_off (Some t_on_2) (Some t_off_2))) =
    witty_schedule_lines date_now time_on time_off (Some t_on_2) (Some t_off_2)"
proof (rule file_lines_concat)
  fix l
  assume "l \<in> set (witty_schedule_lines date_now time_on time_off (Some t_on_2) (Some t_off_2))"
  then show "is_line l"
    unfolding dual_lines
    by (auto simp: is_line_def nl_def segment_line_def nl_free butlast_append)
qed

lemma skip_lines:
  "read_lines ((''# Raspberry Pi start-up/shut-down schedule script'' @ nl) # rest) st =
     read_lines rest st"
  "read_lines ((''BEGIN '' @ strftime_Ymd date_now @ '' '' @ strftime_HMS d @ nl) # rest) st =
     read_lines rest st"
  "read_lines ((''END 2038-01-01 12:00:00'' @ nl) # rest) st = read_lines rest st"
  "read_lines (segment_line ''ON'' hm # rest) st = read_lines rest st"
  "read_lines (segment_line ''OFF'' hm # rest) st = read_lines rest st"
  by (rule read_lines_skip, simp add: nl_def segment_line_def eq_free)+

lemma read_single:
  assumes "valid_datetime time_on" and "valid_datetime time_off"
    and "time_off_2 = None \<or> time_on_2 = None"
  shows "read_lines (witty_schedule_lines date_now time_on time_off time_on_2 time_off_2)
      ((None, None), (None, None), (None, None), (None, None)) =
     Inr ((Some (hour time_on), Some (minute time_on)),
          (Some (hour time_off), Some (minute time_off)), (None, None), (None, None))"
  by (simp only: single_lines [OF assms(3)] skip_lines read_on_time [OF assms(1)]
      read_off_time [OF assms(2)] read_lines.simps(1))

lemma read_dual:
  assumes "valid_datetime time_on" and "valid_datetime time_off"
    and "valid_datetime t_on_2" and "valid_datetime t_off_2"
  shows "read_lines (witty_schedule_lines date_now time_on time_off (Some t_on_2) (Some t_off_2))
      ((None, None), (None, None), (None, None), (None, None)) =
     Inr ((Some (hour time_on), Some (minute time_on)),
          (Some (hour time_off), Some (minute time_off)),
          (Some (hour t_on_2), Some (minute t_on_2)),
          (Some (hour t_off_2), Some (minute t_off_2)))"
  by (simp only: dual_lines skip_lines read_on_time [OF assms(1)]
      read_off_time [OF assms(2)] read_on_time_2 [OF assms(3)] read_off_time_2 [OF assms(4)]
      read_lines.simps(1))

text \<open>
  C3. Writing a schedule and reading the file back gives the hour and the minute of the
  switch-on and the switch-off time, and of the second window's times when both are
  given; without a second window the last two pairs are \<open>(None, None)\<close>.
\<close>

theorem write_read_roundtrip:
  assumes "valid_datetime time_on" and "valid_datetime time_off"
  shows "(time_off_2 = None \<or> time_on_2 = None \<longrightarrow>
          (\<exists>fs'. write_witty_schedule_file fs date_now filename time_on time_off
                    time_on_2 time_off_2 = Inr fs'
             \<and> read_witty_schedule_file fs' filename =
                 Inr (Some ((Some (hour time_on), Some (minute time_on)),
                            (Some (hour time_off), Some (minute time_off)),
                            (None, None), (None, None)))))
       \<and> (\<forall>t_on_2 t_off_2.
            time_on_2 = Some t_on_2 \<and> time_off_2 = Some t_off_2
            \<and> valid_datetime t_on_2 \<and> valid_datetime t_off_2 \<longrightarrow>
          (\<exists>fs'. write_witty_schedule_file fs date_now filename time_on time_off
                    time_on_2 time_off_2 = Inr fs'
             \<and> read_witty_schedule_file fs' filename =
                 Inr (Some ((Some (hour time_on), Some (minute time_on)),
                            (Some (hour time_off), Some (minute time_off)),
                            (Some (hour t_on_2), Some (minute t_on_2)),
                            (Some (hour t_off_2), Some (minute t_off_2))))))"
proof (intro conjI impI allI)
  assume n: "time_off_2 = None \<or> time_on_2 = None"
  show "\<exists>fs'. write_witty_schedule_file fs date_now filename time_on time_off
                    time_on_2 time_off_2 = Inr fs'
             \<and> read_witty_schedule_file fs' filename =
                 Inr (Some ((Some (hour time_on), Some (minute time_on)),
                            (Some (hour time_off), Some (minute time_off)),
                            (None, None), (None, None)))"
    by (simp add: write_witty_schedule_file_def read_witty_schedule_file_def
        single_file_lines [OF n] read_single [OF assms n] try_return_def)
next
  fix t_on_2 t_off_2
  assume a: "time_on_2 = Some t_on_2 \<and> time_off_2 = Some t_off_2
            \<and> valid_datetime t_on_2 \<and> valid_datetime t_off_2"
  then have v: "valid_datetime t_on_2" "valid_datetime t_off_2" by simp_all
  show "\<exists>fs'. write_witty_schedule_file fs date_now filename time_on time_off
                    time_on_2 time_off_2 = Inr fs'
             \<and> read_witty_schedule_file fs' filename =
                 Inr (Some ((Some (hour time_on), Some (minute time_on)),
                            (Some (hour time_off), Some (minute time_off)),
                            (Some (hour t_on_2), Some (minute t_on_2)),
                            (Some (hour t_off_2), Some (minute t_off_2))))"
    using a
    by (simp add: write_witty_schedule_file_def read_witty_schedule_file_def
        dual_file_lines read_dual [OF assms v] try_return_def)
qed

theorem write_read_roundtrip_witness:
  "(\<exists>fs'. write_witty_schedule_file Map.empty (at_time 10 30) ''wittypi/schedule.wpi''
             (at_time 6 5) (at_time 18 40) None None = Inr fs'
         \<and> read_witty_schedule_file fs' ''wittypi/schedule.wpi'' =
             Inr (Some ((Some 6, Some 5), (Some 18, Some 40), (None, None), (None, None))))
   \<and> (\<exists>fs'. write_witty_schedule_file Map.empty (at_time 10 30) ''wittypi/schedule.wpi''
             (at_time 6 5) (at_time 18 40) (Some (at_time 20 0)) (Some (at_time 23 59)) = Inr fs'
         \<and> read_witty_schedule_file fs' ''wittypi/schedule.wpi'' =
             Inr (Some ((Some 6, Some 5), (Some 18, Some 40), (Some 20, Some 0), (Some 23, Some 59))))"
proof -
  have v: "valid_datetime (at_time 6 5)" "valid_datetime (at_time 18 40)"
      "valid_datetime (at_time 20 0)" "valid_datetime (at_time 23 59)"
    by code_simp+
  have f: "hour (at_time h m) = h" "minute (at_time h m) = m" for h m
    by (simp_all add: at_time_def)
  note r = write_read_roundtrip [OF v(1) v(2), of _ _ Map.empty "at_time 10 30"
      "''wittypi/schedule.wpi''", unfolded f]
  from r [of None None] r [of "Some (at_time 23 59)" "Some (at_time 20 0)"] v(3,4)
  show ?thesis by (simp add: f)
qed

section \<open>The lines \<open>BEGIN\<close> and \<open>END\<close>, and the reader\<close>

text \<open>
  C9. The file has one \<open>BEGIN\<close> line and one \<open>END\<close> line. The \<open>BEGIN\<close> line carries the
  date of writing and the time the first segment starts at: the switch-on time in the
  one-window form, and in the two-window form the earlier of the two switch-on times,
  which on one date is the one with the least time of day. The \<open>END\<close> line is always
  \<open>END 2038-01-01 12:00:00\<close>.
\<close>

theorem begin_end_lines:
  "(time_off_2 = None \<or> time_on_2 = None \<longrightarrow>
      filter (prefix ''BEGIN'')
          (witty_schedule_lines date_now time_on time_off time_on_2 time_off_2) =
        [''BEGIN '' @ strftime_Ymd date_now @ '' '' @ strftime_HMS time_on @ nl]
    \<and> filter (prefix ''END'')
          (witty_schedule_lines date_now time_on time_off time_on_2 time_off_2) =
        [''END 2038-01-01 12:00:00'' @ nl])
   \<and> (\<forall>t_on_2 t_off_2. time_on_2 = Some t_on_2 \<and> time_off_2 = Some t_off_2 \<longrightarrow>
        (\<exists>s. (s = time_on \<or> s = t_on_2)
           \<and> s = fst (dual_order time_on time_off t_on_2 t_off_2)
           \<and> \<not> dt_less time_on s \<and> \<not> dt_less t_on_2 s
           \<and> (same_date time_on t_on_2 \<longrightarrow>
                time_of_day s = min (time_of_day time_on) (time_of_day t_on_2))
           \<and> filter (prefix ''BEGIN'')
                (witty_schedule_lines date_now time_on time_off time_on_2 time_off_2) =
              [''BEGIN '' @ strftime_Ymd date_now @ '' '' @ strftime_HMS s @ nl]
           \<and> filter (prefix ''END'')
                (witty_schedule_lines date_now time_on time_off time_on_2 time_off_2) =
              [''END 2038-01-01 12:00:00'' @ nl]))"
proof (intro conjI impI allI)
  assume n: "time_off_2 = None \<or> time_on_2 = None"
  show "filter (prefix ''BEGIN'')
          (witty_schedule_lines date_now time_on time_off time_on_2 time_off_2) =
        [''BEGIN '' @ strftime_Ymd date_now @ '' '' @ strftime_HMS time_on @ nl]"
    by (simp add: single_lines [OF n] segment_line_def)
  show "filter (prefix ''END'')
          (witty_schedule_lines date_now time_on time_off time_on_2 time_off_2) =
        [''END 2038-01-01 12:00:00'' @ nl]"
    by (simp add: single_lines [OF n] segment_line_def)
next
  fix t_on_2 t_off_2
  assume a: "time_on_2 = Some t_on_2 \<and> time_off_2 = Some t_off_2"
  let ?s = "fst (dual_order time_on time_off t_on_2 t_off_2)"
  have s: "?s = (if dt_less time_on t_on_2 then time_on else t_on_2)"
    by (simp add: dual_order_def)
  have 1: "?s = time_on \<or> ?s = t_on_2" by (simp add: s)
  have 2: "\<not> dt_less time_on ?s" "\<not> dt_less t_on_2 ?s"
    by (auto simp: s dt_less_def)
  have 3: "same_date time_on t_on_2 \<longrightarrow>
      time_of_day ?s = min (time_of_day time_on) (time_of_day t_on_2)"
    by (auto simp: s dt_less_same_date)
  have 4: "filter (prefix ''BEGIN'')
        (witty_schedule_lines date_now time_on time_off time_on_2 time_off_2) =
      [''BEGIN '' @ strftime_Ymd date_now @ '' '' @ strftime_HMS ?s @ nl]"
    using a by (simp add: dual_lines segment_line_def)
  have 5: "filter (prefix ''END'')
        (witty_schedule_lines date_now time_on time_off time_on_2 time_off_2) =
      [''END 2038-01-01 12:00:00'' @ nl]"
    using a by (simp add: dual_lines segment_line_def)
  show "\<exists>s. (s = time_on \<or> s = t_on_2)
           \<and> s = fst (dual_order time_on time_off t_on_2 t_off_2)
           \<and> \<not> dt_less time_on s \<and> \<not> dt_less t_on_2 s
           \<and> (same_date time_on t_on_2 \<longrightarrow>
                time_of_day s = min (time_of_day time_on) (time_of_day t_on_2))
           \<and> filter (prefix ''BEGIN'')
                (witty_schedule_lines date_now time_on time_off time_on_2 time_off_2) =
              [''BEGIN '' @ strftime_Ymd date_now @ '' '' @ strftime_HMS s @ nl]
           \<and> filter (prefix ''END'')
                (witty_schedule_lines date_now time_on time_off time_on_2 time_off_2) =
              [''END 2038-01-01 12:00:00'' @ nl]"
    by (rule exI [of _ ?s], intro conjI) (rule 1 2 3 4 5 refl)+
qed

theorem begin_end_lines_witness:
  "filter (prefix ''BEGIN'')
      (witty_schedule_lines (at_time 10 30) (at_time 20 0) (at_time 6 0) None None) =
     [''BEGIN 2021-03-14 20:00:00'' @ nl]
   \<and> filter (prefix ''BEGIN'')
      (witty_schedule_lines (at_time 10 30) (at_time 18 0) (at_time 21 0)
         (Some (at_time 6 0)) (Some (at_time 9 0))) =
     [''BEGIN 2021-03-14 06:00:00'' @ nl]
   \<and> filter (prefix ''END'')
      (witty_schedule_lines (at_time 10 30) (at_time 18 0) (at_time 21 0)
         (Some (at_time 6 0)) (Some (at_time 9 0))) =
     [''END 2038-01-01 12:00:00'' @ nl]"
proof -
  have d: "fst (dual_order (at_time 18 0) (at_time 21 0) (at_time 6 0) (at_time 9 0)) = at_time 6 0"
    by code_simp
  have y: "strftime_Ymd (at_time 10 30) = ''2021-03-14''" by code_simp
  have t: "strftime_HMS (at_time 20 0) = ''20:00:00''" "strftime_HMS (at_time 6 0) = ''06:00:00''"
    by code_simp+
  from begin_end_lines [of None None "at_time 10 30" "at_time 20 0" "at_time 6 0"]
    begin_end_lines [of "Some (at_time 9 0)" "Some (at_time 6 0)" "at_time 10 30"
        "at_time 18 0" "at_time 21 0"]
  show ?thesis by (simp add: d y t)
qed

lemma split_char_not_Nil: "split_char c s \<noteq> []"
  by (induction s) (auto split: list.splits)

lemma split_char_two: "c \<in> set s \<Longrightarrow> \<exists>p q r. split_char c s = p # q # r"
proof (induction s)
  case Nil
  then show ?case by simp
next
  case (Cons x xs)
  show ?case
  proof (cases "x = c")
    case True
    then show ?thesis using split_char_not_Nil [of c xs] by (cases "split_char c xs") auto
  next
    case False
    with Cons.prems have "c \<in> set xs" by simp
    from Cons.IH [OF this] False show ?thesis by auto
  qed
qed

lemma hour_min_error: "hour_min t = Inl e \<Longrightarrow> e = ValueError"
  by (auto simp: hour_min_def split: option.splits list.splits)

lemma parse_line_error:
  assumes "has_key line" and "parse_line line = Inl e"
  shows "e = ValueError"
proof -
  from assms(1) have "CHR ''='' \<in> set line"
    using str_contains_set [of "''on_time=''" line] str_contains_set [of "''off_time=''" line]
      str_contains_set [of "''on_time_2=''" line] str_contains_set [of "''off_time_2=''" line]
    by (auto simp: has_key_def)
  from split_char_two [OF this] obtain p q r where "split_char CHR ''='' line = p # q # r"
    by blast
  moreover obtain t ts where "split_char CHR 0x0A q = t # ts"
    using split_char_not_Nil [of "CHR 0x0A" q] by (cases "split_char CHR 0x0A q") auto
  ultimately have "field_value line = Inr t"
    by (simp add: field_value_def)
  with assms(2) show ?thesis
    by (auto simp: parse_line_def dest: hour_min_error)
qed

lemma read_lines_no_key:
  "\<not> has_key line \<Longrightarrow> read_lines (line # rest) st = read_lines rest st"
  by (cases st) (simp add: has_key_def)

lemma read_lines_key:
  assumes "has_key line"
  shows "read_lines (line # rest) st =
     (case parse_line line of
        Inl e \<Rightarrow> Inl ValueError
      | Inr (h, m) \<Rightarrow>
          (case st of (on_t, off_t, on_2, off_2) \<Rightarrow>
            read_lines rest
              (if str_contains ''on_time='' line then ((Some h, Some m), off_t, on_2, off_2)
               else if str_contains ''off_time='' line then (on_t, (Some h, Some m), on_2, off_2)
               else if str_contains ''on_time_2='' line then (on_t, off_t, (Some h, Some m), off_2)
               else (on_t, off_t, on_2, (Some h, Some m)))))"
proof -
  obtain on_t off_t on_2 off_2 where st: "st = (on_t, off_t, on_2, off_2)"
    by (metis prod_cases4)
  show ?thesis
  proof (cases "parse_line line")
    case (Inl e)
    with parse_line_error [OF assms Inl] assms show ?thesis
      by (auto simp: has_key_def st)
  next
    case (Inr hm)
    with assms show ?thesis
      by (cases hm) (auto simp: has_key_def st)
  qed
qed

lemma read_lines_ok:
  "(\<And>l. l \<in> set ls \<Longrightarrow> has_key l \<Longrightarrow> \<exists>h m. parse_line l = Inr (h, m))
     \<Longrightarrow> \<exists>st'. read_lines ls st = Inr st'"
proof (induction ls arbitrary: st)
  case Nil
  show ?case by (rule exI [of _ st]) simp
next
  case (Cons l ls)
  have ih: "\<exists>st'. read_lines ls s = Inr st'" for s
    by (rule Cons.IH) (simp add: Cons.prems)
  show ?case
  proof (cases "has_key l")
    case False
    then show ?thesis using ih by (simp add: read_lines_no_key)
  next
    case True
    with Cons.prems [of l] obtain h m where "parse_line l = Inr (h, m)" by auto
    with True show ?thesis
      using ih by (simp add: read_lines_key del: read_lines.simps split: prod.splits)
  qed
qed

lemma read_lines_keep:
  assumes "read_lines ls (on_t, off_t, on_2, off_2) = Inr (on_t', off_t', on_2', off_2')"
  shows "(\<forall>l\<in>set ls. \<not> str_contains ''on_time='' l) \<longrightarrow> on_t' = on_t"
    and "(\<forall>l\<in>set ls. \<not> str_contains ''off_time='' l) \<longrightarrow> off_t' = off_t"
    and "(\<forall>l\<in>set ls. \<not> str_contains ''on_time_2='' l) \<longrightarrow> on_2' = on_2"
    and "(\<forall>l\<in>set ls. \<not> str_contains ''off_time_2='' l) \<longrightarrow> off_2' = off_2"
  using assms
proof (induction ls arbitrary: on_t off_t on_2 off_2)
  case Nil
  case 1 then show ?case by simp
next
  case Nil
  case 2 then show ?case by simp
next
  case Nil
  case 3 then show ?case by simp
next
  case Nil
  case 4 then show ?case by simp
next
  case (Cons l ls)
  case 1 then show ?case
    using Cons.IH(1) by (auto split: if_splits sum.splits prod.splits)
next
  case (Cons l ls)
  case 2 then show ?case
    using Cons.IH(2) by (auto split: if_splits sum.splits prod.splits)
next
  case (Cons l ls)
  case 3 then show ?case
    using Cons.IH(3) by (auto split: if_splits sum.splits prod.splits)
next
  case (Cons l ls)
  case 4 then show ?case
    using Cons.IH(4) by (auto split: if_splits sum.splits prod.splits)
qed

lemma read_lines_error: "read_lines ls st = Inl e \<Longrightarrow> e = ValueError"
proof (induction ls arbitrary: st)
  case Nil
  then show ?case by simp
next
  case (Cons l ls)
  show ?case
  proof (cases "has_key l")
    case False
    with Cons show ?thesis by (simp add: read_lines_no_key)
  next
    case True
    with Cons show ?thesis
      by (auto simp add: read_lines_key simp del: read_lines.simps split: sum.splits prod.splits)
  qed
qed

lemma read_lines_bad_key:
  assumes "l \<in> set ls" and k: "has_key l"
    and "\<And>h m. parse_line l \<noteq> Inr (h, m)"
  shows "read_lines ls st = Inl ValueError"
  using assms(1)
proof (induction ls arbitrary: st)
  case Nil
  then show ?case by simp
next
  case (Cons x xs)
  show ?case
  proof (cases "x = l")
    case True
    from assms(3) obtain e where "parse_line l = Inl e" by (cases "parse_line l") auto
    with True k show ?thesis by (simp add: read_lines_key del: read_lines.simps)
  next
    case False
    with Cons.prems have "l \<in> set xs" by simp
    note ih = Cons.IH [OF this]
    show ?thesis
    proof (cases "has_key x")
      case False
      then show ?thesis using ih by (simp add: read_lines_no_key)
    next
      case True
      then show ?thesis using ih
        by (simp add: read_lines_key del: read_lines.simps split: sum.splits prod.splits)
    qed
  qed
qed


text \<open>
  C4, as the claim states it: a file without an \<open>on_time=\<close> line makes the reader fail.
  The file below has none; the reader returns, with \<open>(None, None)\<close> for the switch-on
  time.
\<close>

theorem read_missing_on_time_counterexample:
  "read_witty_schedule_file
     [''wittypi/schedule.wpi'' \<mapsto>
        ''# Raspberry Pi start-up/shut-down schedule script'' @ nl @
        ''# off_time=18:00'' @ nl @
        ''BEGIN 2021-03-14 06:00:00'' @ nl @
        ''END 2038-01-01 12:00:00'' @ nl @
        ''ON H12 M0'' @ nl @
        ''OFF H12 M0'' @ nl]
     ''wittypi/schedule.wpi'' =
   Inr (Some ((None, None), (Some 18, Some 0), (None, None), (None, None)))"
  by code_simp

text \<open>
  C4, amended. For a file of ASCII text: when no line holds \<open>on_time=\<close> and every line
  that holds a key has two integers with a colon between them after its first equals
  sign, the reader returns and the pair of the switch-on time is \<open>(None, None)\<close>. When
  a line holds \<open>on_time=\<close> and what follows is not two such integers, the reader raises
  \<open>ValueError\<close>.
\<close>

theorem read_on_time_missing_or_malformed:
  assumes "fs filename = Some content" and "is_ascii content"
  shows "((\<forall>l\<in>set (file_lines content). \<not> str_contains ''on_time='' l)
          \<and> (\<forall>l\<in>set (file_lines content). has_key l \<longrightarrow> (\<exists>h m. parse_line l = Inr (h, m)))
          \<longrightarrow> (\<exists>off_t on_2 off_2.
                read_witty_schedule_file fs filename =
                  Inr (Some ((None, None), off_t, on_2, off_2))))
       \<and> ((\<exists>l\<in>set (file_lines content).
              str_contains ''on_time='' l \<and> (\<forall>h m. parse_line l \<noteq> Inr (h, m)))
          \<longrightarrow> read_witty_schedule_file fs filename = Inl ValueError)"
proof (intro conjI impI)
  let ?init = "((None, None), (None, None), (None, None), (None, None)) :: witty_times"
  assume a: "(\<forall>l\<in>set (file_lines content). \<not> str_contains ''on_time='' l)
          \<and> (\<forall>l\<in>set (file_lines content). has_key l \<longrightarrow> (\<exists>h m. parse_line l = Inr (h, m)))"
  then have "\<exists>st'. read_lines (file_lines content) ?init = Inr st'"
    by (intro read_lines_ok) blast
  then obtain on_t off_t on_2 off_2
    where r: "read_lines (file_lines content) ?init = Inr (on_t, off_t, on_2, off_2)"
    by (metis prod_cases4)
  from read_lines_keep(1) [OF r] a have "on_t = (None, None)" by blast
  with r assms(1) show "\<exists>off_t on_2 off_2.
                read_witty_schedule_file fs filename =
                  Inr (Some ((None, None), off_t, on_2, off_2))"
    by (simp add: read_witty_schedule_file_def try_return_def)
next
  assume "\<exists>l\<in>set (file_lines content).
              str_contains ''on_time='' l \<and> (\<forall>h m. parse_line l \<noteq> Inr (h, m))"
  then obtain l where "l \<in> set (file_lines content)" "has_key l"
      "\<And>h m. parse_line l \<noteq> Inr (h, m)"
    by (auto simp: has_key_def)
  from read_lines_bad_key [OF this]
  show "read_witty_schedule_file fs filename = Inl ValueError"
    using assms(1) by (simp add: read_witty_schedule_file_def)
qed

theorem read_on_time_missing_or_malformed_witness:
  "(\<exists>off_t on_2 off_2.
      read_witty_schedule_file [''wittypi/schedule.wpi'' \<mapsto> ''# off_time=18:00'' @ nl]
        ''wittypi/schedule.wpi'' = Inr (Some ((None, None), off_t, on_2, off_2)))
   \<and> read_witty_schedule_file [''wittypi/schedule.wpi'' \<mapsto> ''# on_time=0600'' @ nl]
        ''wittypi/schedule.wpi'' = Inl ValueError"
proof -
  have f1: "[''wittypi/schedule.wpi'' \<mapsto> ''# off_time=18:00'' @ nl] ''wittypi/schedule.wpi''
      = Some (''# off_time=18:00'' @ nl)"
    by simp
  have f2: "[''wittypi/schedule.wpi'' \<mapsto> ''# on_time=0600'' @ nl] ''wittypi/schedule.wpi''
      = Some (''# on_time=0600'' @ nl)"
    by simp
  have l1: "file_lines (''# off_time=18:00'' @ nl) = [''# off_time=18:00'' @ nl]" by code_simp
  have l2: "file_lines (''# on_time=0600'' @ nl) = [''# on_time=0600'' @ nl]" by code_simp
  have k1: "\<not> str_contains ''on_time='' (''# off_time=18:00'' @ nl)" by code_simp
  have p1: "parse_line (''# off_time=18:00'' @ nl) = Inr (18, 0)" by code_simp
  have k2: "str_contains ''on_time='' (''# on_time=0600'' @ nl)" by code_simp
  have p2: "parse_line (''# on_time=0600'' @ nl) = Inl ValueError" by code_simp
  have a1: "is_ascii (''# off_time=18:00'' @ nl)" by code_simp
  have a2: "is_ascii (''# on_time=0600'' @ nl)" by code_simp
  from read_on_time_missing_or_malformed
      [where fs = "[''wittypi/schedule.wpi'' \<mapsto> ''# off_time=18:00'' @ nl]"
         and filename = "''wittypi/schedule.wpi''" and content = "''# off_time=18:00'' @ nl", OF f1 a1]
  have
    "\<exists>off_t on_2 off_2.
      read_witty_schedule_file [''wittypi/schedule.wpi'' \<mapsto> ''# off_time=18:00'' @ nl]
        ''wittypi/schedule.wpi'' = Inr (Some ((None, None), off_t, on_2, off_2))"
    unfolding l1 using k1 p1 by simp
  moreover from read_on_time_missing_or_malformed
      [where fs = "[''wittypi/schedule.wpi'' \<mapsto> ''# on_time=0600'' @ nl]"
         and filename = "''wittypi/schedule.wpi''" and content = "''# on_time=0600'' @ nl", OF f2 a2]
  have
    "read_witty_schedule_file [''wittypi/schedule.wpi'' \<mapsto> ''# on_time=0600'' @ nl]
        ''wittypi/schedule.wpi'' = Inl ValueError"
    unfolding l2 using k2 p2 by simp
  ultimately show ?thesis by blast
qed

text \<open>
  C10, as the claim states it: for every file the reader returns the four pairs. The
  file below has no \<open>on_time=\<close> line and an \<open>off_time=\<close> line without minutes; the
  reader raises \<open>ValueError\<close>.
\<close>

theorem read_missing_keys_counterexample:
  "read_witty_schedule_file
     [''wittypi/schedule.wpi'' \<mapsto>
        ''# Raspberry Pi start-up/shut-down schedule script'' @ nl @
        ''# off_time=18'' @ nl]
     ''wittypi/schedule.wpi'' = Inl ValueError"
  by code_simp

text \<open>
  C10, amended. For a file of ASCII text that exists: whatever the reader returns is
  the tuple of four pairs, never the \<open>None\<close> of the \<open>except\<close> branch, and a pair is
  \<open>(None, None)\<close> when no line holds its key; the reader returns whenever every line
  that holds a key has two integers with a colon between them after its first equals
  sign; when a line that holds a key has not, the reader raises \<open>ValueError\<close>, and it
  raises no other error.
\<close>

theorem read_missing_keys:
  assumes "fs filename = Some content" and "is_ascii content"
  shows "(\<forall>r. read_witty_schedule_file fs filename = Inr r \<longrightarrow>
            (\<exists>on_t off_t on_2 off_2.
               r = Some (on_t, off_t, on_2, off_2)
             \<and> ((\<forall>l\<in>set (file_lines content). \<not> str_contains ''on_time='' l) \<longrightarrow>
                  on_t = (None, None))
             \<and> ((\<forall>l\<in>set (file_lines content). \<not> str_contains ''off_time='' l) \<longrightarrow>
                  off_t = (None, None))
             \<and> ((\<forall>l\<in>set (file_lines content). \<not> str_contains ''on_time_2='' l) \<longrightarrow>
                  on_2 = (None, None))
             \<and> ((\<forall>l\<in>set (file_lines content). \<not> str_contains ''off_time_2='' l) \<longrightarrow>
                  off_2 = (None, None))))
       \<and> ((\<forall>l\<in>set (file_lines content). has_key l \<longrightarrow> (\<exists>h m. parse_line l = Inr (h, m)))
            \<longrightarrow> (\<exists>t. read_witty_schedule_file fs filename = Inr (Some t)))
       \<and> ((\<exists>l\<in>set (file_lines content). has_key l \<and> (\<forall>h m. parse_line l \<noteq> Inr (h, m)))
            \<longrightarrow> read_witty_schedule_file fs filename = Inl ValueError)
       \<and> (\<forall>e. read_witty_schedule_file fs filename = Inl e \<longrightarrow> e = ValueError)
       \<and> read_witty_schedule_file fs filename \<noteq> Inr None"
proof -
  let ?init = "((None, None), (None, None), (None, None), (None, None)) :: witty_times"
  let ?ls = "file_lines content"
  have rd: "read_witty_schedule_file fs filename =
      (case read_lines ?ls ?init of Inl e \<Rightarrow> Inl e | Inr t \<Rightarrow> Inr (Some t))"
    using assms(1) by (simp add: read_witty_schedule_file_def try_return_def split: sum.splits)
  have 1: "\<exists>on_t off_t on_2 off_2.
               r = Some (on_t, off_t, on_2, off_2)
             \<and> ((\<forall>l\<in>set ?ls. \<not> str_contains ''on_time='' l) \<longrightarrow> on_t = (None, None))
             \<and> ((\<forall>l\<in>set ?ls. \<not> str_contains ''off_time='' l) \<longrightarrow> off_t = (None, None))
             \<and> ((\<forall>l\<in>set ?ls. \<not> str_contains ''on_time_2='' l) \<longrightarrow> on_2 = (None, None))
             \<and> ((\<forall>l\<in>set ?ls. \<not> str_contains ''off_time_2='' l) \<longrightarrow> off_2 = (None, None))"
    if "read_witty_schedule_file fs filename = Inr r" for r
  proof -
    from that rd obtain t where t: "read_lines ?ls ?init = Inr t" "r = Some t"
      by (auto split: sum.splits)
    obtain on_t off_t on_2 off_2 where q: "t = (on_t, off_t, on_2, off_2)"
      by (metis prod_cases4)
    note k = read_lines_keep [OF t(1) [unfolded q]]
    show ?thesis
      by (rule exI [of _ on_t], rule exI [of _ off_t], rule exI [of _ on_2], rule exI [of _ off_2])
         (use k t(2) q in simp)
  qed
  have 2: "\<exists>t. read_witty_schedule_file fs filename = Inr (Some t)"
    if "\<forall>l\<in>set ?ls. has_key l \<longrightarrow> (\<exists>h m. parse_line l = Inr (h, m))"
  proof -
    from that have "\<exists>st'. read_lines ?ls ?init = Inr st'"
      by (intro read_lines_ok) blast
    then obtain st' where "read_lines ?ls ?init = Inr st'" by blast
    then have "read_witty_schedule_file fs filename = Inr (Some st')" by (simp add: rd)
    then show ?thesis by (rule exI)
  qed
  have 3: "e = ValueError" if "read_witty_schedule_file fs filename = Inl e" for e
  proof -
    from that rd have "read_lines ?ls ?init = Inl e" by (auto split: sum.splits)
    then show ?thesis by (rule read_lines_error)
  qed
  have 4: "read_witty_schedule_file fs filename \<noteq> Inr None"
    by (simp add: rd split: sum.splits)
  have 5: "read_witty_schedule_file fs filename = Inl ValueError"
    if "\<exists>l\<in>set ?ls. has_key l \<and> (\<forall>h m. parse_line l \<noteq> Inr (h, m))"
  proof -
    from that obtain l where "l \<in> set ?ls" "has_key l" "\<And>h m. parse_line l \<noteq> Inr (h, m)"
      by blast
    from read_lines_bad_key [OF this] show ?thesis by (simp add: rd)
  qed
  from 1 2 3 4 5 show ?thesis by blast
qed

theorem read_missing_keys_witness:
  "(\<exists>off_t on_2 off_2.
      read_witty_schedule_file [''wittypi/schedule.wpi'' \<mapsto> ''# off_time=18:00'' @ nl]
        ''wittypi/schedule.wpi'' = Inr (Some ((None, None), off_t, on_2, off_2)))
   \<and> read_witty_schedule_file [''wittypi/schedule.wpi'' \<mapsto> ''# off_time_2=21:5x'' @ nl]
        ''wittypi/schedule.wpi'' = Inl ValueError"
proof -
  let ?fs = "[''wittypi/schedule.wpi'' \<mapsto> ''# off_time=18:00'' @ nl]"
  let ?gs = "[''wittypi/schedule.wpi'' \<mapsto> ''# off_time_2=21:5x'' @ nl]"
  have f: "?fs ''wittypi/schedule.wpi'' = Some (''# off_time=18:00'' @ nl)"
    by simp
  have g: "?gs ''wittypi/schedule.wpi'' = Some (''# off_time_2=21:5x'' @ nl)"
    by simp
  have a: "is_ascii (''# off_time=18:00'' @ nl)" by code_simp
  have b: "is_ascii (''# off_time_2=21:5x'' @ nl)" by code_simp
  have l: "file_lines (''# off_time=18:00'' @ nl) = [''# off_time=18:00'' @ nl]" by code_simp
  have m: "file_lines (''# off_time_2=21:5x'' @ nl) = [''# off_time_2=21:5x'' @ nl]"
    by code_simp
  have k: "\<not> str_contains ''on_time='' (''# off_time=18:00'' @ nl)" by code_simp
  have p: "parse_line (''# off_time=18:00'' @ nl) = Inr (18, 0)" by code_simp
  have hk: "has_key (''# off_time_2=21:5x'' @ nl)" by code_simp
  have q: "parse_line (''# off_time_2=21:5x'' @ nl) = Inl ValueError" by code_simp
  note th = read_missing_keys
      [where fs = ?fs and filename = "''wittypi/schedule.wpi''"
         and content = "''# off_time=18:00'' @ nl", OF f a, unfolded l]
  from th p have "\<exists>t. read_witty_schedule_file ?fs ''wittypi/schedule.wpi'' = Inr (Some t)"
    by simp
  then obtain t where t: "read_witty_schedule_file ?fs ''wittypi/schedule.wpi'' = Inr (Some t)" ..
  from th t k have 1: "\<exists>off_t on_2 off_2.
      read_witty_schedule_file ?fs ''wittypi/schedule.wpi'' =
        Inr (Some ((None, None), off_t, on_2, off_2))"
    by auto
  note tg = read_missing_keys
      [where fs = ?gs and filename = "''wittypi/schedule.wpi''"
         and content = "''# off_time_2=21:5x'' @ nl", OF g b, unfolded m]
  from tg hk q have 2: "read_witty_schedule_file ?gs ''wittypi/schedule.wpi'' = Inl ValueError"
    by simp
  from 1 2 show ?thesis by (rule conjI)
qed

end
